theory Spec2Isabelle
  imports Main "HOL-Library.Word"
begin

unbundle bit_operations_syntax

section \<open>Values shared by the channels\<close>

type_synonym byte = "8 word"
type_synonym bytes = "byte list"

text \<open>An address is the pair (host, port) that \<^verbatim>\<open>recvfrom\<close> returns and \<^verbatim>\<open>sendto\<close> takes.\<close>

type_synonym address = "string \<times> int"

text \<open>A socket object is identified by its position in the table of sockets ever created.\<close>

type_synonym fd = nat

datatype error =
    KeyError
  | ValueError
  | TypeError
  | AttributeError
  | OSError
  | OverflowError
  | BlockingIOError
  | DecodeError

text \<open>
  The argument of \<^verbatim>\<open>add_client\<close> and the destination of \<^verbatim>\<open>send\<close> are dispatched on
  their Python type: a tuple, a list, or anything else.
\<close>

datatype py_addr = Tuple address | List "address list" | Other

text \<open>
  A call either returns a value or raises; in both cases the state reached is kept, since
  the assignments made before a raise stay made.
\<close>

datatype ('a, 's) result = Return 'a 's | Raise error 's

section \<open>The logger\<close>

datatype level = INFO | WARNING

text \<open>One constructor per message of the module, carrying the values it formats.\<close>

datatype log_msg =
    ModifyingSelector string
  | BindedSocket address
  | Host string
  | NetworkSending
  | NetworkSent address
  | ReceivedPacket nat address
  | ShouldNotBeHere
  | AddedNewClient address
  | UnregisteredSocket
  | ClosedSocket
  | NoDestinationHost
  | OutWaitingRequest
  | ReceivedRequest
  | OutReadyQueue
  | OutGotMessage
  | MessageReady nat
  | SetInputSize int
  | InWaiting int
  | InEnoughBytes
  | InPutData

section \<open>Sockets and the module-level selector\<close>

text \<open>
  A UDP socket: the address it is bound to, whether it has been closed, and the datagrams
  that have arrived and are not yet read, each with its sender. Every socket of the module
  is made non-blocking before it is registered, so a read on an empty socket raises.
\<close>

record socket =
  bound :: "address option"
  is_closed :: bool
  inbox :: "(bytes \<times> address) list"

text \<open>
  The world outside the channel objects: the sockets created so far, the selector
  \<^verbatim>\<open>sel\<close> of the module (socket to interest mask), the datagrams handed to \<^verbatim>\<open>sendto\<close>
  (socket, payload, destination), the records of the logger and the host name. What the
  network around the process allows is a parameter of the world: the host names that resolve
  and the destinations to which a datagram can be routed.
\<close>

record os =
  sockets :: "socket list"
  sel :: "fd \<rightharpoonup> int"
  outbox :: "(fd \<times> bytes \<times> address) list"
  logs :: "(level \<times> log_msg) list"
  hostname :: string
  resolves :: "string \<Rightarrow> bool"
  routes :: "address \<Rightarrow> bool"

definition EVENT_READ :: int where
  "EVENT_READ = 1"

definition EVENT_WRITE :: int where
  "EVENT_WRITE = 2"

definition logger_info :: "log_msg \<Rightarrow> os \<Rightarrow> os" where
  "logger_info m w = w\<lparr>logs := logs w @ [(INFO, m)]\<rparr>"

definition logger_warning :: "log_msg \<Rightarrow> os \<Rightarrow> os" where
  "logger_warning m w = w\<lparr>logs := logs w @ [(WARNING, m)]\<rparr>"

definition sock_closed :: "os \<Rightarrow> fd \<Rightarrow> bool" where
  "sock_closed w s = (if s < length (sockets w) then is_closed (sockets w ! s) else True)"

definition sock_inbox :: "os \<Rightarrow> fd \<Rightarrow> (bytes \<times> address) list" where
  "sock_inbox w s = (if s < length (sockets w) then inbox (sockets w ! s) else [])"

definition set_inbox :: "fd \<Rightarrow> (bytes \<times> address) list \<Rightarrow> os \<Rightarrow> os" where
  "set_inbox s ds w = w\<lparr>sockets := (sockets w)[s := (sockets w ! s)\<lparr>inbox := ds\<rparr>]\<rparr>"

text \<open>\<^verbatim>\<open>socket.socket(AF_INET, SOCK_DGRAM)\<close>: a new, open, unbound socket.\<close>

definition socket_socket :: "os \<Rightarrow> fd \<times> os" where
  "socket_socket w =
     (length (sockets w),
      w\<lparr>sockets := sockets w @ [\<lparr>bound = None, is_closed = False, inbox = []\<rparr>]\<rparr>)"

text \<open>
  An address argument is converted before the system call: a host that does not resolve
  raises (gaierror, an OSError), then a port outside 0..65535 raises OverflowError.
\<close>

definition address_error :: "os \<Rightarrow> address \<Rightarrow> error option" where
  "address_error w a =
     (if \<not> resolves w (fst a) then Some OSError
      else if snd a < 0 \<or> 65535 < snd a then Some OverflowError
      else None)"

text \<open>
  \<^verbatim>\<open>sock.bind(addr)\<close> fails on an address that does not convert, on a closed or already
  bound socket and when another open socket holds the address.
\<close>

definition sock_bind :: "fd \<Rightarrow> address \<Rightarrow> os \<Rightarrow> error + os" where
  "sock_bind s a w =
     (case address_error w a of
        Some e \<Rightarrow> Inl e
      | None \<Rightarrow>
          (if sock_closed w s then Inl OSError
           else if bound (sockets w ! s) \<noteq> None then Inl OSError
           else if list_ex (\<lambda>k. \<not> is_closed k \<and> bound k = Some a) (sockets w) then Inl OSError
           else Inr (w\<lparr>sockets := (sockets w)[s := (sockets w ! s)\<lparr>bound := Some a\<rparr>]\<rparr>)))"

definition sock_setblocking :: "fd \<Rightarrow> os \<Rightarrow> error + os" where
  "sock_setblocking s w = (if sock_closed w s then Inl OSError else Inr w)"

text \<open>
  \<^verbatim>\<open>sock.recvfrom(n)\<close> on a non-blocking UDP socket: the oldest datagram, cut to \<open>n\<close>
  bytes (the rest of it is lost), and its sender.
\<close>

definition sock_recvfrom :: "fd \<Rightarrow> int \<Rightarrow> os \<Rightarrow> error + ((bytes \<times> address) \<times> os)" where
  "sock_recvfrom s n w =
     (if n < 0 then Inl ValueError
      else if sock_closed w s then Inl OSError
      else (case inbox (sockets w ! s) of
              [] \<Rightarrow> Inl BlockingIOError
            | (payload, sender) # rest \<Rightarrow>
                Inr ((take (nat n) payload, sender), set_inbox s rest w)))"

text \<open>
  \<^verbatim>\<open>sock.sendto(msg, address)\<close> raises when the address does not convert, when the socket
  is closed, when the payload exceeds the 65507 bytes of a UDP datagram over IPv4 and when
  the destination cannot be routed; otherwise the datagram is handed to the network.
\<close>

definition sendto_error :: "fd \<Rightarrow> bytes \<Rightarrow> address \<Rightarrow> os \<Rightarrow> error option" where
  "sendto_error s msg a w =
     (case address_error w a of
        Some e \<Rightarrow> Some e
      | None \<Rightarrow>
          (if sock_closed w s then Some OSError
           else if 65507 < length msg then Some OSError
           else if \<not> routes w a then Some OSError
           else None))"

definition sock_sendto :: "fd \<Rightarrow> bytes \<Rightarrow> address \<Rightarrow> os \<Rightarrow> error + os" where
  "sock_sendto s msg a w =
     (case sendto_error s msg a w of
        Some e \<Rightarrow> Inl e
      | None \<Rightarrow> Inr (w\<lparr>outbox := outbox w @ [(s, msg, a)]\<rparr>))"

text \<open>\<^verbatim>\<open>sock.close()\<close>: closing a closed socket does nothing.\<close>

definition sock_close :: "fd \<Rightarrow> os \<Rightarrow> os" where
  "sock_close s w =
     (if s < length (sockets w)
      then w\<lparr>sockets := (sockets w)[s := (sockets w ! s)\<lparr>is_closed := True\<rparr>]\<rparr>
      else w)"

text \<open>
  \<^verbatim>\<open>sel.register\<close>: the mask must be a non-empty subset of READ and WRITE, the socket
  open and not yet registered.
\<close>

definition sel_register :: "fd \<Rightarrow> int \<Rightarrow> os \<Rightarrow> error + os" where
  "sel_register s events w =
     (if events = 0 \<or> events AND NOT (EVENT_READ OR EVENT_WRITE) \<noteq> 0 then Inl ValueError
      else if sock_closed w s then Inl ValueError
      else if sel w s \<noteq> None then Inl KeyError
      else Inr (w\<lparr>sel := (sel w)(s \<mapsto> events)\<rparr>))"

text \<open>
  \<^verbatim>\<open>sel.unregister\<close>: a registered socket is removed (it is found by identity even when
  closed); an unregistered one raises, ValueError when it is closed (its descriptor is
  invalid) and KeyError otherwise.
\<close>

definition sel_unregister :: "fd \<Rightarrow> os \<Rightarrow> error + os" where
  "sel_unregister s w =
     (if sel w s \<noteq> None then Inr (w\<lparr>sel := (sel w)(s := None)\<rparr>)
      else if sock_closed w s then Inl ValueError
      else Inl KeyError)"

section \<open>Truthiness\<close>

text \<open>Python's \<^verbatim>\<open>a and b\<close> on integers gives \<open>a\<close> when \<open>a\<close> is falsy and \<open>b\<close> otherwise.\<close>

definition py_and :: "int \<Rightarrow> int \<Rightarrow> int" where
  "py_and a b = (if a = 0 then a else b)"

definition truthy :: "int \<Rightarrow> bool" where
  "truthy a = (a \<noteq> 0)"

section \<open>Queues\<close>

text \<open>
  Modelled from the spec: the queue objects bound with \<^verbatim>\<open>set_queue\<close> are created outside
  this module. The output queue is a single-slot mailbox in which a new write supersedes an
  unread value; the input queue is a lossless FIFO.
\<close>

type_synonym 'v mailbox = "'v option"

definition mailbox_put :: "'v \<Rightarrow> 'v mailbox \<Rightarrow> 'v mailbox" where
  "mailbox_put v q = Some v"

definition fifo_put :: "'r \<Rightarrow> 'r list \<Rightarrow> 'r list" where
  "fifo_put r q = q @ [r]"

section \<open>Network\<close>

text \<open>
  The settings dictionary after \<^verbatim>\<open>settings.to_custom_types\<close> has filled in the defaults;
  the last three keys are those of OutNetwork.
\<close>

record settings =
  address :: string
  port :: int
  send_on_demand :: bool
  destination_address :: "string list"
  destination_ports :: "int list"

record 'q network =
  addr :: "string option \<times> int option"
  sock :: "fd option"
  clients :: "address list"
  queue :: "'q option"
  settings :: "settings option"
  byte_ordering :: char

type_synonym ('q, 'z) state = "os \<times> ('q, 'z) network_scheme"

definition Network_init :: "string option \<Rightarrow> int option \<Rightarrow> 'q network" where
  "Network_init host prt =
     \<lparr>addr = (host, prt), sock = None, clients = [], queue = None, settings = None,
      byte_ordering = CHR ''<''\<rparr>"

definition set_byte_ordering :: "char \<Rightarrow> ('q, 'z) network_scheme \<Rightarrow> ('q, 'z) network_scheme" where
  "set_byte_ordering v n = n\<lparr>byte_ordering := v\<rparr>"

definition set_queue :: "'q \<Rightarrow> ('q, 'z) network_scheme \<Rightarrow> ('q, 'z) network_scheme" where
  "set_queue q n = n\<lparr>queue := Some q\<rparr>"

definition get_events :: "string \<Rightarrow> error + int" where
  "get_events mode =
     (if mode = ''r'' then Inr EVENT_READ
      else if mode = ''w'' then Inr EVENT_WRITE
      else if mode = ''rw'' then Inr (EVENT_READ OR EVENT_WRITE)
      else Inl ValueError)"

definition Network_initialise ::
  "string \<Rightarrow> settings \<Rightarrow> ('q, 'z) state \<Rightarrow> (unit, ('q, 'z) state) result" where
  "Network_initialise mode in_settings st =
     (let n1 = (snd st)\<lparr>settings := Some in_settings\<rparr>;
          a = (address in_settings, port in_settings);
          n2 = n1\<lparr>addr := (Some (fst a), Some (snd a))\<rparr>;
          (s, w1) = socket_socket (fst st);
          n3 = n2\<lparr>sock := Some s\<rparr>
      in case sock_bind s a w1 of
           Inl e \<Rightarrow> Raise e (w1, n3)
         | Inr w2 \<Rightarrow>
             (let w3 = logger_info (BindedSocket a) w2
              in case get_events mode of
                   Inl e \<Rightarrow> Raise e (w3, n3)
                 | Inr events \<Rightarrow>
                     (let w4 = logger_info (Host (hostname w3)) w3
                      in case sock_setblocking s w4 of
                           Inl e \<Rightarrow> Raise e (w4, n3)
                         | Inr w5 \<Rightarrow>
                             (case sel_register s events w5 of
                                Inl e \<Rightarrow> Raise e (w5, n3)
                              | Inr w6 \<Rightarrow> Return () (w6, n3)))))"

text \<open>\<^verbatim>\<open>_sendto\<close> of the source.\<close>

definition sendto :: "bytes \<Rightarrow> address \<Rightarrow> ('q, 'z) state \<Rightarrow> (unit, ('q, 'z) state) result" where
  "sendto msg a st =
     (let w1 = logger_info NetworkSending (fst st)
      in case sock (snd st) of
           None \<Rightarrow> Raise AttributeError (w1, snd st)
         | Some s \<Rightarrow>
             (case sock_sendto s msg a w1 of
                Inl e \<Rightarrow> Raise e (w1, snd st)
              | Inr w2 \<Rightarrow> Return () (logger_info (NetworkSent a) w2, snd st)))"

text \<open>The loop of \<^verbatim>\<open>send\<close> over a list of destinations; a raise ends it.\<close>

fun send_each :: "bytes \<Rightarrow> address list \<Rightarrow> ('q, 'z) state \<Rightarrow> (unit, ('q, 'z) state) result" where
  "send_each msg [] st = Return () st"
| "send_each msg (dest # dests) st =
     (case sendto msg dest st of
        Raise e st1 \<Rightarrow> Raise e st1
      | Return u st1 \<Rightarrow> send_each msg dests st1)"

definition send :: "bytes \<Rightarrow> py_addr \<Rightarrow> ('q, 'z) state \<Rightarrow> (unit, ('q, 'z) state) result" where
  "send msg dest_addr st =
     (case dest_addr of
        List dests \<Rightarrow> send_each msg dests st
      | Tuple dest \<Rightarrow> sendto msg dest st
      | Other \<Rightarrow> Return () st)"

text \<open>\<^verbatim>\<open>_add_client\<close> of the source.\<close>

definition add_client1 :: "address \<Rightarrow> ('q, 'z) state \<Rightarrow> ('q, 'z) state" where
  "add_client1 client_addr st =
     (if client_addr \<notin> set (clients (snd st))
      then (logger_info (AddedNewClient client_addr) (fst st),
            (snd st)\<lparr>clients := clients (snd st) @ [client_addr]\<rparr>)
      else st)"

definition add_client :: "py_addr \<Rightarrow> ('q, 'z) state \<Rightarrow> ('q, 'z) state" where
  "add_client client_addr st =
     (case client_addr of
        Tuple c \<Rightarrow> add_client1 c st
      | List cs \<Rightarrow> fold add_client1 cs st
      | Other \<Rightarrow> st)"

definition receive :: "int \<Rightarrow> ('q, 'z) state \<Rightarrow> (bytes, ('q, 'z) state) result" where
  "receive msg_length st =
     (case sock (snd st) of
        None \<Rightarrow> Raise AttributeError st
      | Some s \<Rightarrow>
          (case sock_recvfrom s msg_length (fst st) of
             Inl e \<Rightarrow> Raise e st
           | Inr ((r_msg, client_addr), w1) \<Rightarrow>
               (let w2 = logger_info (ReceivedPacket (length r_msg) client_addr) w1
                in Return r_msg (add_client (Tuple client_addr) (w2, snd st)))))"

definition close :: "('q, 'z) state \<Rightarrow> (unit, ('q, 'z) state) result" where
  "close st =
     (case sock (snd st) of
        None \<Rightarrow> Raise ValueError st
      | Some s \<Rightarrow>
          (case sel_unregister s (fst st) of
             Inl e \<Rightarrow> Raise e st
           | Inr w1 \<Rightarrow>
               (let w2 = logger_info UnregisteredSocket w1;
                    w3 = sock_close s w2
                in Return () (logger_info ClosedSocket w3, snd st))))"

section \<open>OutNetwork\<close>

definition OutNetwork_initialise ::
  "string \<Rightarrow> settings \<Rightarrow> ('q, 'z) state \<Rightarrow> (unit, ('q, 'z) state) result" where
  "OutNetwork_initialise mode in_settings st =
     (case Network_initialise mode in_settings st of
        Raise e st1 \<Rightarrow> Raise e st1
      | Return u st1 \<Rightarrow>
          (case settings (snd st1) of
             None \<Rightarrow> Raise TypeError st1
           | Some cfg \<Rightarrow>
               (let st2 = (if \<not> send_on_demand cfg \<and> length (destination_address cfg) = 0
                           then (logger_warning NoDestinationHost (fst st1), snd st1)
                           else st1);
                    cs = zip (destination_address cfg) (destination_ports cfg)
                in Return () (add_client (List cs) st2))))"

text \<open>
  The snapshots of the queue are encoded by their own \<^verbatim>\<open>encode\<close> method, which is not
  part of this module: it is the parameter \<open>encode\<close>, from a snapshot to its bytes, or a
  raise. The mailbox is empty when it is \<open>None\<close>, and \<^verbatim>\<open>get\<close> takes its value out.
\<close>

definition OutNetwork_process_events ::
  "('v \<Rightarrow> error + bytes) \<Rightarrow> int \<Rightarrow> ('v mailbox, 'z) state
     \<Rightarrow> (unit, ('v mailbox, 'z) state) result" where
  "OutNetwork_process_events encode evmask st =
     (let r1 =
        (if truthy (py_and evmask EVENT_READ)
         then (case settings (snd st) of
                 None \<Rightarrow> Raise TypeError st
               | Some cfg \<Rightarrow>
                   (if send_on_demand cfg
                    then (case receive 1024 (logger_info OutWaitingRequest (fst st), snd st) of
                            Raise e st1 \<Rightarrow> Raise e st1
                          | Return msg st1 \<Rightarrow>
                              Return () (logger_info ReceivedRequest (fst st1), snd st1))
                    else Return () st))
         else Return () st)
      in case r1 of
           Raise e st1 \<Rightarrow> Raise e st1
         | Return u st1 \<Rightarrow>
             (if truthy (py_and evmask EVENT_WRITE)
              then (case queue (snd st1) of
                      None \<Rightarrow> Raise AttributeError st1
                    | Some q \<Rightarrow>
                        (case q of
                           None \<Rightarrow> Return () st1
                         | Some set_of_vars \<Rightarrow>
                             (let w1 = logger_info OutReadyQueue (fst st1);
                                  n1 = (snd st1)\<lparr>queue := Some None\<rparr>;
                                  w2 = logger_info OutGotMessage w1
                              in case encode set_of_vars of
                                   Inl e \<Rightarrow> Raise e (w2, n1)
                                 | Inr val \<Rightarrow>
                                     (let w3 = logger_info (MessageReady (length val)) w2
                                      in send val (List (clients n1)) (w3, n1)))))
              else Return () st1))"

section \<open>InNetwork\<close>

record 'q in_network = "'q network" +
  in_message_length :: int
  recv_buffer :: bytes

definition InNetwork_init :: "'q in_network" where
  "InNetwork_init =
     \<lparr>addr = (None, None), sock = None, clients = [], queue = None, settings = None,
      byte_ordering = CHR ''<'', in_message_length = 1024, recv_buffer = []\<rparr>"

definition set_message_length ::
  "int \<Rightarrow> os \<times> ('q, 'z) in_network_scheme \<Rightarrow> os \<times> ('q, 'z) in_network_scheme" where
  "set_message_length v st =
     (logger_info (SetInputSize v) (fst st), (snd st)\<lparr>in_message_length := v\<rparr>)"

text \<open>
  \<^verbatim>\<open>message_interface.decoder\<close> is not part of this module: it is the parameter
  \<open>decoder\<close>, from the buffer and the byte order to a list of variables, or a raise.
\<close>

definition InNetwork_process_events ::
  "(bytes \<Rightarrow> char \<Rightarrow> error + 'r) \<Rightarrow> int \<Rightarrow> os \<times> ('r list, 'z) in_network_scheme
     \<Rightarrow> (unit, os \<times> ('r list, 'z) in_network_scheme) result" where
  "InNetwork_process_events decoder evmask st =
     (case sock (snd st) of
        None \<Rightarrow> Raise AttributeError st
      | Some s \<Rightarrow>
          (case sock_setblocking s (fst st) of
             Inl e \<Rightarrow> Raise e st
           | Inr w0 \<Rightarrow>
               (if truthy (py_and evmask EVENT_READ)
                then (let w1 = logger_info (InWaiting (in_message_length (snd st))) w0
                      in case receive (in_message_length (snd st)) (w1, snd st) of
                           Raise e st1 \<Rightarrow> Raise e st1
                         | Return msg st1 \<Rightarrow>
                             (let n2 = (snd st1)\<lparr>recv_buffer := recv_buffer (snd st1) @ msg\<rparr>
                              in if int (length (recv_buffer n2)) = in_message_length n2
                                 then (let w2 = logger_info InEnoughBytes (fst st1)
                                       in case decoder (recv_buffer n2) (byte_ordering n2) of
                                            Inl e \<Rightarrow> Raise e (w2, n2)
                                          | Inr list_of_variables \<Rightarrow>
                                              (case queue n2 of
                                                 None \<Rightarrow> Raise AttributeError (w2, n2)
                                               | Some q \<Rightarrow>
                                                   Return ()
                                                     (logger_info InPutData w2,
                                                      n2\<lparr>queue := Some (fifo_put list_of_variables q),
                                                         recv_buffer := []\<rparr>)))
                                 else Return () (fst st1, n2)))
                else Return () (w0, snd st))))"

section \<open>Observing results and driving the channels\<close>

definition state_of :: "('a, 's) result \<Rightarrow> 's" where
  "state_of r = (case r of Return v s \<Rightarrow> s | Raise e s \<Rightarrow> s)"

definition value_of :: "('a, 's) result \<Rightarrow> 'a option" where
  "value_of r = (case r of Return v s \<Rightarrow> Some v | Raise e s \<Rightarrow> None)"

definition returns :: "('a, 's) result \<Rightarrow> bool" where
  "returns r = (case r of Return v s \<Rightarrow> True | Raise e s \<Rightarrow> False)"

text \<open>The datagrams that a read on the channel's socket can take: none without an open socket.\<close>

definition waiting :: "os \<times> ('q, 'z) network_scheme \<Rightarrow> (bytes \<times> address) list" where
  "waiting st =
     (case sock (snd st) of
        None \<Rightarrow> []
      | Some s \<Rightarrow> if sock_closed (fst st) s then [] else sock_inbox (fst st) s)"

text \<open>The simulation thread writing a snapshot into the mailbox bound to the channel.\<close>

definition put_snapshot :: "'v \<Rightarrow> ('v mailbox, 'z) network_scheme \<Rightarrow> ('v mailbox, 'z) network_scheme" where
  "put_snapshot v n = n\<lparr>queue := map_option (mailbox_put v) (queue n)\<rparr>"

text \<open>A datagram reaches a socket: the step of the network, not of the module.\<close>

definition arrive :: "fd \<Rightarrow> (bytes \<times> address) list \<Rightarrow> os \<Rightarrow> os" where
  "arrive s ds w =
     (if s < length (sockets w) then set_inbox s (inbox (sockets w ! s) @ ds) w else w)"

text \<open>A caller that calls \<^verbatim>\<open>receive\<close> once per requested length, going on after a raise.\<close>

fun receive_all :: "int list \<Rightarrow> ('q, 'z) state \<Rightarrow> ('q, 'z) state" where
  "receive_all [] st = st"
| "receive_all (k # ks) st = receive_all ks (state_of (receive k st))"

text \<open>The I/O loop handing one readiness mask after the other to an input channel.\<close>

fun in_events ::
  "(bytes \<Rightarrow> char \<Rightarrow> error + 'r) \<Rightarrow> int list \<Rightarrow> os \<times> ('r list, 'z) in_network_scheme
     \<Rightarrow> (unit, os \<times> ('r list, 'z) in_network_scheme) result" where
  "in_events decoder [] st = Return () st"
| "in_events decoder (m # ms) st =
     (case InNetwork_process_events decoder m st of
        Raise e st1 \<Rightarrow> Raise e st1
      | Return u st1 \<Rightarrow> in_events decoder ms st1)"

subsection \<open>A concrete pair of channels\<close>

text \<open>A host without sockets yet, on which the loopback address alone resolves and is routed.\<close>

definition os0 :: os where
  "os0 = \<lparr>sockets = [], sel = Map.empty, outbox = [], logs = [], hostname = ''sim'',
          resolves = (\<lambda>h. h = ''127.0.0.1''), routes = (\<lambda>a. fst a = ''127.0.0.1'')\<rparr>"

definition in_cfg :: settings where
  "in_cfg = \<lparr>address = ''127.0.0.1'', port = 65001, send_on_demand = True,
             destination_address = [], destination_ports = []\<rparr>"

definition out_cfg :: "bool \<Rightarrow> string list \<Rightarrow> int list \<Rightarrow> settings" where
  "out_cfg demand hosts ports =
     \<lparr>address = ''127.0.0.1'', port = 65000, send_on_demand = demand,
      destination_address = hosts, destination_ports = ports\<rparr>"

text \<open>
  An input channel as \<^verbatim>\<open>get_networks\<close> builds it (mode \<^verbatim>\<open>r\<close>), with the message length
  set, an empty queue bound, and the given datagrams waiting at its socket.
\<close>

definition in_chan :: "int \<Rightarrow> (bytes \<times> address) list \<Rightarrow> os \<times> 'r list in_network" where
  "in_chan len ds =
     (let st1 = state_of (Network_initialise ''r'' in_cfg (os0, InNetwork_init));
          st2 = set_message_length len (fst st1, set_queue [] (snd st1))
      in (arrive 0 ds (fst st2), snd st2))"

text \<open>
  An output channel as \<^verbatim>\<open>get_networks\<close> builds it (mode \<^verbatim>\<open>rw\<close>), with the given
  mailbox bound and the given datagrams waiting at its socket.
\<close>

definition out_chan ::
  "settings \<Rightarrow> 'v mailbox \<Rightarrow> (bytes \<times> address) list \<Rightarrow> os \<times> 'v mailbox network" where
  "out_chan cfg q ds =
     (let st1 = state_of (OutNetwork_initialise ''rw'' cfg (os0, Network_init None None))
      in (arrive 0 ds (fst st1), set_queue q (snd st1)))"

text \<open>
  An encoder and a decoder that keep the bytes as they are, and a decoder that rejects
  every buffer.
\<close>

definition raw_encode :: "bytes \<Rightarrow> error + bytes" where
  "raw_encode b = Inr b"

definition failing_decoder :: "bytes \<Rightarrow> char \<Rightarrow> error + bytes" where
  "failing_decoder b bo = Inl DecodeError"

definition raw_decoder :: "bytes \<Rightarrow> char \<Rightarrow> error + bytes" where
  "raw_decoder b bo = Inr b"

text \<open>
  An input channel of message length 100 that has taken a datagram of 60 bytes and has one of
  80 bytes waiting.
\<close>

definition overshoot_start :: "os \<times> bytes list in_network" where
  "overshoot_start =
     state_of (InNetwork_process_events raw_decoder EVENT_READ
       (in_chan 100 [(replicate 60 1, (''10.0.0.7'', 5005)), (replicate 80 2, (''10.0.0.7'', 5005))]))"

text \<open>
  An input channel of message length 1024 that has taken two datagrams of 300 bytes and has
  one of 424 bytes waiting.
\<close>

definition fragments_start :: "os \<times> bytes list in_network" where
  "fragments_start =
     state_of (in_events raw_decoder [EVENT_READ, EVENT_READ]
       (in_chan 1024 [(replicate 300 1, (''10.0.0.7'', 5005)), (replicate 300 2, (''10.0.0.7'', 5005)),
                      (replicate 424 3, (''10.0.0.7'', 5005))]))"

text \<open>
  An on-demand output channel without configured destinations that has answered a first
  requester, has a new snapshot in its mailbox and has the request of a second one waiting.
\<close>

definition demand_second :: "os \<times> bytes mailbox network" where
  "demand_second =
     (let st1 = state_of (OutNetwork_process_events raw_encode (EVENT_READ OR EVENT_WRITE)
                  (out_chan (out_cfg True [] []) (Some [9])
                     [([], (''127.0.0.1'', 4004)), ([], (''127.0.0.1'', 5005))]))
      in (fst st1, put_snapshot [8] (snd st1)))"

section \<open>Unfolding the definitions on concrete inputs\<close>

lemmas scenario_defs =
  in_chan_def out_chan_def os0_def in_cfg_def out_cfg_def InNetwork_init_def Network_init_def
  Network_initialise_def OutNetwork_initialise_def socket_socket_def sock_bind_def
  address_error_def
  sock_closed_def sock_inbox_def sock_setblocking_def sel_register_def get_events_def
  logger_info_def logger_warning_def set_message_length_def set_queue_def arrive_def
  state_of_def value_of_def returns_def EVENT_READ_def EVENT_WRITE_def set_inbox_def
  add_client_def add_client1_def Let_def

lemmas step_defs =
  receive_def sock_recvfrom_def sock_sendto_def sendto_error_def sendto_def send_def close_def
  sel_unregister_def sock_close_def py_and_def truthy_def
  InNetwork_process_events_def OutNetwork_process_events_def fifo_put_def raw_decoder_def
  raw_encode_def failing_decoder_def waiting_def put_snapshot_def mailbox_put_def

section \<open>The client registry\<close>

lemma add_client1_clients:
  "clients (snd (add_client1 c st)) =
     (if c \<in> set (clients (snd st)) then clients (snd st) else clients (snd st) @ [c])"
  by (simp add: add_client1_def)

lemma add_client1_frame:
  "snd (add_client1 c st) = (snd st)\<lparr>clients := clients (snd (add_client1 c st))\<rparr>"
  by (simp add: add_client1_def)

lemma add_client1_os:
  "fst (add_client1 c st) =
     (if c \<in> set (clients (snd st)) then fst st
      else logger_info (AddedNewClient c) (fst st))"
  by (simp add: add_client1_def)

lemma add_client1_distinct:
  "distinct (clients (snd st)) \<Longrightarrow> distinct (clients (snd (add_client1 c st)))"
  by (simp add: add_client1_clients)

lemma add_client1_known: "c \<in> set (clients (snd st)) \<Longrightarrow> add_client1 c st = st"
  by (simp add: add_client1_def)

lemma fold_add_client1_distinct:
  "distinct (clients (snd st)) \<Longrightarrow> distinct (clients (snd (fold add_client1 cs st)))"
  by (induction cs arbitrary: st) (simp_all add: add_client1_distinct)

lemma fold_add_client1_set:
  "set (clients (snd (fold add_client1 cs st))) = set (clients (snd st)) \<union> set cs"
  by (induction cs arbitrary: st) (auto simp: add_client1_clients)

lemma fold_add_client1_frame:
  "snd (fold add_client1 cs st) = (snd st)\<lparr>clients := clients (snd (fold add_client1 cs st))\<rparr>"
proof (induction cs arbitrary: st)
  case Nil
  show ?case by simp
next
  case (Cons c cs)
  have "snd (fold add_client1 (c # cs) st) =
          (snd (add_client1 c st))\<lparr>clients := clients (snd (fold add_client1 (c # cs) st))\<rparr>"
    using Cons.IH [of "add_client1 c st"] by simp
  also have "\<dots> = (snd st)\<lparr>clients := clients (snd (fold add_client1 (c # cs) st))\<rparr>"
    by (subst add_client1_frame) simp
  finally show ?case .
qed

lemma add_client_distinct:
  "distinct (clients (snd st)) \<Longrightarrow> distinct (clients (snd (add_client a st)))"
  by (cases a) (simp_all add: add_client_def add_client1_distinct fold_add_client1_distinct)

lemma add_client_set_mono: "set (clients (snd st)) \<subseteq> set (clients (snd (add_client a st)))"
  by (cases a) (auto simp: add_client_def add_client1_clients fold_add_client1_set)

lemma remdups_drop_later: "c \<in> set bs \<Longrightarrow> remdups (as @ c # bs) = remdups (as @ bs)"
  by (induction as) auto

lemma fold_add_client1_clients:
  "distinct (clients (snd st)) \<Longrightarrow>
   clients (snd (fold add_client1 cs st)) = rev (remdups (rev (clients (snd st) @ cs)))"
proof (induction cs arbitrary: st)
  case Nil
  then show ?case by (simp add: distinct_remdups_id)
next
  case (Cons c cs)
  have d: "distinct (clients (snd (add_client1 c st)))"
    using Cons.prems by (rule add_client1_distinct)
  show ?case
  proof (cases "c \<in> set (clients (snd st))")
    case True
    then have "remdups (rev cs @ c # rev (clients (snd st))) = remdups (rev cs @ rev (clients (snd st)))"
      by (intro remdups_drop_later) simp
    with True Cons.IH [OF d] show ?thesis
      by (simp add: add_client1_clients)
  next
    case False
    with Cons.IH [OF d] show ?thesis
      by (simp add: add_client1_clients)
  qed
qed

lemma receive_distinct:
  "distinct (clients (snd st)) \<Longrightarrow> distinct (clients (snd (state_of (receive k st))))"
  by (auto simp: receive_def state_of_def Let_def add_client_def add_client1_clients
           split: option.splits sum.splits prod.splits)

lemma receive_set_mono:
  "set (clients (snd st)) \<subseteq> set (clients (snd (state_of (receive k st))))"
  by (auto simp: receive_def state_of_def Let_def add_client_def add_client1_clients
           split: option.splits sum.splits prod.splits)

lemma receive_all_distinct:
  "distinct (clients (snd st)) \<Longrightarrow> distinct (clients (snd (receive_all ks st)))"
  by (induction ks arbitrary: st) (simp_all add: receive_distinct)

lemma receive_all_set_mono:
  "set (clients (snd st)) \<subseteq> set (clients (snd (receive_all ks st)))"
proof (induction ks arbitrary: st)
  case Nil
  show ?case by simp
next
  case (Cons k ks)
  show ?case using receive_set_mono [of st k] Cons.IH [of "state_of (receive k st)"] by auto
qed

lemma distinct_count_list_1: "distinct xs \<Longrightarrow> x \<in> set xs \<Longrightarrow> count_list xs x = 1"
  by (induction xs) auto

section \<open>Reading from the socket\<close>

lemma pending_in_range:
  "sock_inbox w s = d # rest \<Longrightarrow> s < length (sockets w) \<and> inbox (sockets w ! s) = d # rest"
  by (cases "s < length (sockets w)") (simp_all add: sock_inbox_def)

lemma sock_recvfrom_pending:
  assumes "\<not> sock_closed w s" and "sock_inbox w s = (payload, sender) # rest" and "0 \<le> k"
  shows "sock_recvfrom s k w = Inr ((take (nat k) payload, sender), set_inbox s rest w)"
  using assms pending_in_range [OF assms(2)] by (simp add: sock_recvfrom_def)

lemma sock_recvfrom_InrD:
  assumes "sock_recvfrom s k w = Inr ((m, sender), w')"
  shows "\<exists>payload rest. \<not> sock_closed w s \<and> 0 \<le> k \<and>
           sock_inbox w s = (payload, sender) # rest \<and> m = take (nat k) payload \<and>
           w' = set_inbox s rest w"
proof -
  from assms have k: "0 \<le> k" and c: "\<not> sock_closed w s"
    by (simp_all add: sock_recvfrom_def split: if_splits)
  from c have r: "s < length (sockets w)"
    by (simp add: sock_closed_def split: if_splits)
  from assms k c obtain payload rest where
    i: "inbox (sockets w ! s) = (payload, sender) # rest" and
    m: "m = take (nat k) payload" and
    w': "w' = set_inbox s rest w"
    by (cases "inbox (sockets w ! s)") (auto simp: sock_recvfrom_def)
  from r i have "sock_inbox w s = (payload, sender) # rest"
    by (simp add: sock_inbox_def)
  with k c m w' show ?thesis by blast
qed

lemma receive_Return:
  assumes "sock (snd st) = Some s" and "\<not> sock_closed (fst st) s"
    and "sock_inbox (fst st) s = (payload, sender) # rest" and "0 \<le> k"
  shows "receive k st =
           Return (take (nat k) payload)
             (add_client (Tuple sender)
                (logger_info (ReceivedPacket (length (take (nat k) payload)) sender)
                   (set_inbox s rest (fst st)),
                 snd st))"
  using assms(1) sock_recvfrom_pending [OF assms(2-4)]
  by (simp add: receive_def)

lemma receive_ReturnD:
  assumes "receive k st = Return m st'"
  shows "\<exists>s payload sender rest.
           sock (snd st) = Some s \<and> \<not> sock_closed (fst st) s \<and> 0 \<le> k \<and>
           sock_inbox (fst st) s = (payload, sender) # rest"
proof -
  from assms obtain s where s: "sock (snd st) = Some s"
    by (cases "sock (snd st)") (simp_all add: receive_def)
  with assms obtain r sender w' where "sock_recvfrom s k (fst st) = Inr ((r, sender), w')"
    by (cases "sock_recvfrom s k (fst st)") (auto simp: receive_def)
  from sock_recvfrom_InrD [OF this] s show ?thesis by blast
qed

lemma sock_inbox_logger_info [simp]: "sock_inbox (logger_info m w) s = sock_inbox w s"
  by (simp add: sock_inbox_def logger_info_def)

lemma sock_closed_logger_info [simp]: "sock_closed (logger_info m w) s = sock_closed w s"
  by (simp add: sock_closed_def logger_info_def)

lemma sock_inbox_set_inbox:
  "s < length (sockets w) \<Longrightarrow> sock_inbox (set_inbox s ds w) s = ds"
  by (simp add: sock_inbox_def set_inbox_def)

lemma sock_closed_set_inbox [simp]: "sock_closed (set_inbox s ds w) s' = sock_closed w s'"
  by (cases "s' = s") (simp_all add: sock_closed_def set_inbox_def)

lemma set_inbox_fields [simp]:
  "sel (set_inbox s ds w) = sel w" "outbox (set_inbox s ds w) = outbox w"
  "logs (set_inbox s ds w) = logs w" "hostname (set_inbox s ds w) = hostname w"
  "resolves (set_inbox s ds w) = resolves w" "routes (set_inbox s ds w) = routes w"
  by (simp_all add: set_inbox_def)

lemma logger_info_fields [simp]:
  "sel (logger_info m w) = sel w" "outbox (logger_info m w) = outbox w"
  "sockets (logger_info m w) = sockets w" "hostname (logger_info m w) = hostname w"
  "resolves (logger_info m w) = resolves w" "routes (logger_info m w) = routes w"
  "logs (logger_info m w) = logs w @ [(INFO, m)]"
  by (simp_all add: logger_info_def)

lemma add_client_Tuple_os:
  "fst (add_client (Tuple c) st) =
     (if c \<in> set (clients (snd st)) then fst st else logger_info (AddedNewClient c) (fst st))"
  by (simp add: add_client_def add_client1_os)

lemma add_client_Tuple_clients:
  "clients (snd (add_client (Tuple c) st)) =
     (if c \<in> set (clients (snd st)) then clients (snd st) else clients (snd st) @ [c])"
  by (simp add: add_client_def add_client1_clients)

lemma add_client_Tuple_frame:
  "snd (add_client (Tuple c) st) = (snd st)\<lparr>clients := clients (snd (add_client (Tuple c) st))\<rparr>"
  using add_client1_frame [of c st] by (simp add: add_client_def)

lemma Network_initialise_ReturnD:
  assumes "Network_initialise mode cfg st = Return () st1"
  shows "settings (snd st1) = Some cfg \<and> clients (snd st1) = clients (snd st)"
  using assms
  by (auto simp: Network_initialise_def Let_def split: prod.splits sum.splits)

lemma zip_truncates:
  "zip xs ys = zip (take (min (length xs) (length ys)) xs) (take (min (length xs) (length ys)) ys)"
  by (metis length_zip take_all_iff order_refl take_zip)

section \<open>One event of the input channel\<close>

lemma receive_pending_in:
  assumes "sock n = Some s" and "\<not> sock_closed w s"
    and "sock_inbox w s = (payload, sender) # rest" and "0 \<le> k"
  shows "receive k (w, n) =
           Return (take (nat k) payload)
             (add_client (Tuple sender)
                (logger_info (ReceivedPacket (length (take (nat k) payload)) sender)
                   (set_inbox s rest w), n))"
  using receive_Return [of "(w, n)" s payload sender rest k] assms by simp

text \<open>The state of an input channel after a READ event that takes one datagram.\<close>

lemma InNetwork_read_event:
  fixes st :: "os \<times> ('r list, 'z) in_network_scheme"
  assumes s: "sock (snd st) = Some s" and c: "\<not> sock_closed (fst st) s"
    and i: "sock_inbox (fst st) s = (payload, sender) # rest"
    and m: "evmask \<noteq> 0" and k: "0 \<le> in_message_length (snd st)"
  defines "msg \<equiv> take (nat (in_message_length (snd st))) payload"
  defines "st1 \<equiv> add_client (Tuple sender)
                    (logger_info (ReceivedPacket (length msg) sender)
                       (set_inbox s rest (logger_info (InWaiting (in_message_length (snd st))) (fst st))),
                     snd st)"
  defines "n2 \<equiv> (snd st1)\<lparr>recv_buffer := recv_buffer (snd st) @ msg\<rparr>"
  shows "InNetwork_process_events decoder evmask st =
           (if int (length (recv_buffer (snd st) @ msg)) = in_message_length (snd st)
            then (case decoder (recv_buffer (snd st) @ msg) (byte_ordering (snd st)) of
                    Inl e \<Rightarrow> Raise e (logger_info InEnoughBytes (fst st1), n2)
                  | Inr r \<Rightarrow>
                      (case queue (snd st) of
                         None \<Rightarrow> Raise AttributeError (logger_info InEnoughBytes (fst st1), n2)
                       | Some q \<Rightarrow>
                           Return ()
                             (logger_info InPutData (logger_info InEnoughBytes (fst st1)),
                              n2\<lparr>queue := Some (q @ [r]), recv_buffer := []\<rparr>)))
            else Return () (fst st1, n2))"
proof -
  let ?L = "in_message_length (snd st)"
  let ?w1 = "logger_info (InWaiting ?L) (fst st)"
  have r: "receive ?L (?w1, snd st) = Return msg st1"
    unfolding msg_def st1_def
    by (rule receive_pending_in) (simp_all add: s c i k)
  have f: "snd st1 = (snd st)\<lparr>clients := clients (snd st1)\<rparr>"
    unfolding st1_def by (rule trans [OF add_client_Tuple_frame]) simp
  have b: "recv_buffer (snd st1) = recv_buffer (snd st)"
    and l: "in_message_length (snd st1) = ?L"
    and o: "byte_ordering (snd st1) = byte_ordering (snd st)"
    and q: "queue (snd st1) = queue (snd st)"
    by (subst f, simp)+
  show ?thesis
    using s c m r
    by (simp add: InNetwork_process_events_def sock_setblocking_def truthy_def py_and_def
          EVENT_READ_def Let_def n2_def b l o q fifo_put_def
        split: sum.splits option.splits)
qed

section \<open>Frames of the operations\<close>

lemma add_client_frame:
  "snd (add_client a st) = (snd st)\<lparr>clients := clients (snd (add_client a st))\<rparr>"
proof (cases a)
  case (Tuple c)
  then show ?thesis using add_client1_frame [of c st] by (simp add: add_client_def)
next
  case (List cs)
  then show ?thesis using fold_add_client1_frame [of cs st] by (simp add: add_client_def)
next
  case Other
  then show ?thesis by (simp add: add_client_def)
qed

lemma add_client_fields [simp]:
  "sock (snd (add_client a st)) = sock (snd st)"
  "queue (snd (add_client a st)) = queue (snd st)"
  "settings (snd (add_client a st)) = settings (snd st)"
  "byte_ordering (snd (add_client a st)) = byte_ordering (snd st)"
  "addr (snd (add_client a st)) = addr (snd st)"
  by (subst add_client_frame, simp)+

lemma add_client_in_fields [simp]:
  fixes st :: "os \<times> ('q, 'z) in_network_scheme"
  shows "recv_buffer (snd (add_client a st)) = recv_buffer (snd st)"
    and "in_message_length (snd (add_client a st)) = in_message_length (snd st)"
  by (subst add_client_frame, simp)+

lemma waiting_ConsD:
  assumes "waiting st = d # rest"
  shows "\<exists>s. sock (snd st) = Some s \<and> \<not> sock_closed (fst st) s \<and> sock_inbox (fst st) s = d # rest"
  using assms by (cases "sock (snd st)") (simp_all add: waiting_def split: if_splits)

lemma add_client1_os_fields:
  "sockets (fst (add_client1 c st)) = sockets (fst st)"
  "sel (fst (add_client1 c st)) = sel (fst st)"
  "outbox (fst (add_client1 c st)) = outbox (fst st)"
  by (simp_all add: add_client1_os)

lemma fold_add_client1_os_fields:
  "sockets (fst (fold add_client1 cs st)) = sockets (fst st) \<and>
   sel (fst (fold add_client1 cs st)) = sel (fst st) \<and>
   outbox (fst (fold add_client1 cs st)) = outbox (fst st)"
  by (induction cs arbitrary: st) (simp_all add: add_client1_os_fields)

lemma add_client_os_fields [simp]:
  "sockets (fst (add_client a st)) = sockets (fst st)"
  "sel (fst (add_client a st)) = sel (fst st)"
  "outbox (fst (add_client a st)) = outbox (fst st)"
  by (cases a, simp_all add: add_client_def add_client1_os_fields fold_add_client1_os_fields)+

lemma sock_closed_sockets: "sockets w' = sockets w \<Longrightarrow> sock_closed w' s = sock_closed w s"
  by (simp add: sock_closed_def)

lemma sock_inbox_sockets: "sockets w' = sockets w \<Longrightarrow> sock_inbox w' s = sock_inbox w s"
  by (simp add: sock_inbox_def)

lemma waiting_sockets:
  "sockets (fst st') = sockets (fst st) \<Longrightarrow> sock (snd st') = sock (snd st) \<Longrightarrow>
   waiting st' = waiting st"
  using sock_closed_sockets [of "fst st'" "fst st"] sock_inbox_sockets [of "fst st'" "fst st"]
  by (cases "sock (snd st)") (simp_all add: waiting_def)

lemma waiting_set_inbox:
  assumes "sock n = Some s" and "\<not> sock_closed w s"
  shows "waiting (set_inbox s ds w, n) = ds"
proof -
  from assms(2) have "s < length (sockets w)"
    by (simp add: sock_closed_def split: if_splits)
  with assms show ?thesis
    by (simp add: waiting_def sock_inbox_set_inbox)
qed

lemma receive_Raise_state: "receive k st = Raise e st1 \<Longrightarrow> st1 = st"
  by (cases "sock (snd st)")
     (auto simp: receive_def Let_def split: sum.splits prod.splits)

text \<open>An event that does not reach the end of the equality branch leaves the queue alone.\<close>

lemma InNetwork_queue_changed:
  fixes st :: "os \<times> ('r list, 'z) in_network_scheme"
  assumes "queue (snd (state_of (InNetwork_process_events decoder evmask st))) \<noteq> queue (snd st)"
  shows "\<exists>payload sender rest q r.
           waiting st = (payload, sender) # rest \<and> evmask \<noteq> 0 \<and>
           int (length (recv_buffer (snd st) @ take (nat (in_message_length (snd st))) payload))
             = in_message_length (snd st) \<and>
           decoder (recv_buffer (snd st) @ take (nat (in_message_length (snd st))) payload)
             (byte_ordering (snd st)) = Inr r \<and>
           queue (snd st) = Some q \<and>
           queue (snd (state_of (InNetwork_process_events decoder evmask st))) = Some (q @ [r])"
proof -
  let ?L = "in_message_length (snd st)"
  let ?R = "InNetwork_process_events decoder evmask st"
  obtain s where s: "sock (snd st) = Some s"
    using assms
    by (cases "sock (snd st)") (simp_all add: InNetwork_process_events_def state_of_def)
  have c: "\<not> sock_closed (fst st) s"
    using assms s
    by (auto simp: InNetwork_process_events_def state_of_def sock_setblocking_def)
  have m: "evmask \<noteq> 0"
    using assms s c
    by (auto simp: InNetwork_process_events_def state_of_def sock_setblocking_def
          truthy_def py_and_def)
  let ?w1 = "logger_info (InWaiting ?L) (fst st)"
  have "\<exists>msg st1. receive ?L (?w1, snd st) = Return msg st1"
  proof (cases "receive ?L (?w1, snd st)")
    case (Return msg st1)
    then show ?thesis by blast
  next
    case (Raise e st1)
    with receive_Raise_state [OF Raise] assms s c m show ?thesis
      by (simp add: InNetwork_process_events_def state_of_def sock_setblocking_def
            truthy_def py_and_def EVENT_READ_def Let_def)
  qed
  then obtain msg st1 where r: "receive ?L (?w1, snd st) = Return msg st1" by blast
  from receive_ReturnD [OF r] s obtain payload sender rest where
    k: "0 \<le> ?L" and i: "sock_inbox (fst st) s = (payload, sender) # rest"
    by auto
  have w: "waiting st = (payload, sender) # rest"
    using s c i by (simp add: waiting_def)
  note ev = InNetwork_read_event [OF s c i m k, of decoder]
  let ?buf = "recv_buffer (snd st) @ take (nat ?L) payload"
  have e: "int (length ?buf) = ?L"
    using assms by (auto simp: ev state_of_def split: if_splits)
  obtain rr where d: "decoder ?buf (byte_ordering (snd st)) = Inr rr"
    using assms e
    by (cases "decoder ?buf (byte_ordering (snd st))")
       (auto simp: ev state_of_def)
  obtain q where q: "queue (snd st) = Some q"
    using assms e d
    by (cases "queue (snd st)") (auto simp: ev state_of_def)
  have "queue (snd (state_of ?R)) = Some (q @ [rr])"
    using e d q by (simp add: ev state_of_def)
  with w m e d q show ?thesis by blast
qed

lemma InNetwork_read_event_waiting:
  fixes st :: "os \<times> ('r list, 'z) in_network_scheme"
  assumes s: "sock (snd st) = Some s" and c: "\<not> sock_closed (fst st) s"
    and r: "InNetwork_process_events decoder evmask st = Return () st'"
    and i: "sock_inbox (fst st) s = (payload, sender) # rest"
    and m: "evmask \<noteq> 0" and k: "0 \<le> in_message_length (snd st)"
  shows "waiting st' = rest"
proof -
  let ?L = "in_message_length (snd st)"
  let ?w = "set_inbox s rest (logger_info (InWaiting ?L) (fst st))"
  have "waiting (?w, snd st) = rest"
    using s c by (intro waiting_set_inbox) simp_all
  moreover have "waiting st' = waiting (?w, snd st)"
    using r
    by (intro waiting_sockets)
       (auto simp: InNetwork_read_event [OF s c i m k] split: if_splits sum.splits option.splits)
  ultimately show ?thesis by simp
qed

lemma InNetwork_equality_path:
  fixes st :: "os \<times> ('r list, 'z) in_network_scheme"
  assumes "waiting st = (payload, sender) # rest" and "evmask \<noteq> 0"
    and "int (length (recv_buffer (snd st) @ take (nat (in_message_length (snd st))) payload))
           = in_message_length (snd st)"
    and "decoder (recv_buffer (snd st) @ take (nat (in_message_length (snd st))) payload)
           (byte_ordering (snd st)) = Inr r"
    and "queue (snd st) = Some q"
  shows "\<exists>st'. InNetwork_process_events decoder evmask st = Return () st' \<and>
           queue (snd st') = Some (q @ [r]) \<and> recv_buffer (snd st') = [] \<and> waiting st' = rest"
proof -
  from waiting_ConsD [OF assms(1)] obtain s where
    s: "sock (snd st) = Some s" and c: "\<not> sock_closed (fst st) s" and
    i: "sock_inbox (fst st) s = (payload, sender) # rest"
    by blast
  have k: "0 \<le> in_message_length (snd st)"
    using assms(3) by linarith
  note ev = InNetwork_read_event [OF s c i assms(2) k, of decoder]
  obtain st' where r: "InNetwork_process_events decoder evmask st = Return () st'"
    and q: "queue (snd st') = Some (q @ [r])" and b: "recv_buffer (snd st') = []"
    using assms(3,4,5) by (simp add: ev)
  have w: "waiting st' = rest"
    by (rule InNetwork_read_event_waiting [OF s c r i assms(2) k])
  from r q b w show ?thesis by blast
qed

section \<open>Sending to the registry\<close>

lemma sock_closed_outbox [simp]: "sock_closed (w\<lparr>outbox := b\<rparr>) s = sock_closed w s"
  by (simp add: sock_closed_def)

lemma sock_closed_add_client [simp]:
  "sock_closed (fst (add_client a st)) s = sock_closed (fst st) s"
  by (rule sock_closed_sockets) simp

lemma sendto_error_same_network:
  assumes "sock_closed w' s = sock_closed w s" and "resolves w' = resolves w"
    and "routes w' = routes w"
  shows "sendto_error s msg a w' = sendto_error s msg a w"
  using assms by (simp add: sendto_error_def address_error_def)

lemma sendto_result:
  assumes "sock n = Some s"
  shows "sendto msg a (w, n) =
           (case sendto_error s msg a w of
              Some e \<Rightarrow> Raise e (logger_info NetworkSending w, n)
            | None \<Rightarrow>
                Return () (logger_info (NetworkSent a)
                  ((logger_info NetworkSending w)\<lparr>outbox := outbox w @ [(s, msg, a)]\<rparr>), n))"
proof -
  have "sendto_error s msg a (logger_info NetworkSending w) = sendto_error s msg a w"
    by (rule sendto_error_same_network) simp_all
  with assms show ?thesis
    by (simp add: sendto_def sock_sendto_def Let_def split: option.splits)
qed

lemma send_each_result:
  assumes "sock n = Some s"
  shows "snd (state_of (send_each msg ds (w, n))) = n \<and>
         sockets (fst (state_of (send_each msg ds (w, n)))) = sockets w \<and>
         outbox (fst (state_of (send_each msg ds (w, n)))) =
           outbox w @ map (\<lambda>a. (s, msg, a)) (takeWhile (\<lambda>a. sendto_error s msg a w = None) ds) \<and>
         returns (send_each msg ds (w, n)) = list_all (\<lambda>a. sendto_error s msg a w = None) ds"
proof (induction ds arbitrary: w)
  case Nil
  show ?case by (simp add: state_of_def returns_def)
next
  case (Cons d ds)
  show ?case
  proof (cases "sendto_error s msg d w")
    case (Some e)
    then show ?thesis
      by (simp add: sendto_result [OF assms] state_of_def returns_def)
  next
    case None
    let ?w1 = "logger_info (NetworkSent d)
                 ((logger_info NetworkSending w)\<lparr>outbox := outbox w @ [(s, msg, d)]\<rparr>)"
    have e: "sendto_error s msg a ?w1 = sendto_error s msg a w" for a
      by (rule sendto_error_same_network) simp_all
    have "send_each msg (d # ds) (w, n) = send_each msg ds (?w1, n)"
      using None by (simp add: sendto_result [OF assms])
    with Cons.IH [of ?w1] None show ?thesis
      by (simp add: e)
  qed
qed

section \<open>Further facts on the registry and on one event\<close>

lemma receive_all_keeps:
  assumes "distinct (clients (snd st))" and "d \<in> set (clients (snd st))"
  shows "count_list (clients (snd (receive_all ks st))) d = 1"
proof -
  have "d \<in> set (clients (snd (receive_all ks st)))"
    using assms(2) receive_all_set_mono [of st ks] by auto
  moreover have "distinct (clients (snd (receive_all ks st)))"
    using assms(1) by (rule receive_all_distinct)
  ultimately show ?thesis by (simp add: distinct_count_list_1)
qed

lemma add_client_Tuple_count:
  assumes "distinct (clients (snd st))"
  shows "count_list (clients (snd (add_client (Tuple c) st))) c = 1"
proof -
  have "c \<in> set (clients (snd (add_client (Tuple c) st)))"
    by (simp add: add_client_Tuple_clients)
  moreover have "distinct (clients (snd (add_client (Tuple c) st)))"
    using assms by (rule add_client_distinct)
  ultimately show ?thesis by (simp add: distinct_count_list_1)
qed

lemma receive_registers:
  assumes "waiting st = (payload, c) # rest" and "0 \<le> k"
  shows "c \<in> set (clients (snd (state_of (receive k st))))"
proof -
  from waiting_ConsD [OF assms(1)] obtain s where
    "sock (snd st) = Some s" and "\<not> sock_closed (fst st) s" and
    "sock_inbox (fst st) s = (payload, c) # rest"
    by blast
  from receive_Return [OF this assms(2)] show ?thesis
    by (simp add: state_of_def add_client_Tuple_clients)
qed

lemma mask_includes_nonzero: "(evmask :: int) AND b \<noteq> 0 \<Longrightarrow> evmask \<noteq> 0"
  by auto

lemma InNetwork_Return_readD:
  fixes st :: "os \<times> ('r list, 'z) in_network_scheme"
  assumes "evmask \<noteq> 0" and "InNetwork_process_events decoder evmask st = Return () st'"
  shows "\<exists>payload sender rest.
           waiting st = (payload, sender) # rest \<and> 0 \<le> in_message_length (snd st)"
proof -
  let ?L = "in_message_length (snd st)"
  obtain s where s: "sock (snd st) = Some s"
    using assms(2)
    by (cases "sock (snd st)") (simp_all add: InNetwork_process_events_def)
  have c: "\<not> sock_closed (fst st) s"
    using assms(2) s
    by (auto simp: InNetwork_process_events_def sock_setblocking_def split: if_splits)
  let ?w1 = "logger_info (InWaiting ?L) (fst st)"
  have "\<exists>msg st1. receive ?L (?w1, snd st) = Return msg st1"
  proof (cases "receive ?L (?w1, snd st)")
    case (Return msg st1)
    then show ?thesis by blast
  next
    case (Raise e st1)
    with assms s c show ?thesis
      by (simp add: InNetwork_process_events_def sock_setblocking_def
            truthy_def py_and_def EVENT_READ_def Let_def)
  qed
  then obtain msg st1 where r: "receive ?L (?w1, snd st) = Return msg st1" by blast
  from receive_ReturnD [OF r] s obtain payload sender rest where
    k: "0 \<le> ?L" and i: "sock_inbox (fst st) s = (payload, sender) # rest"
    by auto
  have "waiting st = (payload, sender) # rest"
    using s c i by (simp add: waiting_def)
  with k show ?thesis by blast
qed

lemma InNetwork_read_event_waiting_state:
  fixes st :: "os \<times> ('r list, 'z) in_network_scheme"
  assumes s: "sock (snd st) = Some s" and c: "\<not> sock_closed (fst st) s"
    and i: "sock_inbox (fst st) s = (payload, sender) # rest"
    and m: "evmask \<noteq> 0" and k: "0 \<le> in_message_length (snd st)"
  shows "waiting (state_of (InNetwork_process_events decoder evmask st)) = rest"
proof -
  let ?L = "in_message_length (snd st)"
  let ?w = "set_inbox s rest (logger_info (InWaiting ?L) (fst st))"
  have "waiting (?w, snd st) = rest"
    using s c by (intro waiting_set_inbox) simp_all
  moreover have "waiting (state_of (InNetwork_process_events decoder evmask st)) = waiting (?w, snd st)"
    by (intro waiting_sockets)
       (auto simp: InNetwork_read_event [OF s c i m k] state_of_def
             split: if_splits sum.splits option.splits)
  ultimately show ?thesis by simp
qed

lemma InNetwork_equality_decoder_raises:
  fixes st :: "os \<times> ('r list, 'z) in_network_scheme"
  assumes "waiting st = (payload, sender) # rest" and "evmask \<noteq> 0"
    and "int (length (recv_buffer (snd st) @ take (nat (in_message_length (snd st))) payload))
           = in_message_length (snd st)"
    and "decoder (recv_buffer (snd st) @ take (nat (in_message_length (snd st))) payload)
           (byte_ordering (snd st)) = Inl e"
  shows "\<exists>st'. InNetwork_process_events decoder evmask st = Raise e st' \<and>
           queue (snd st') = queue (snd st) \<and>
           recv_buffer (snd st') =
             recv_buffer (snd st) @ take (nat (in_message_length (snd st))) payload \<and>
           waiting st' = rest"
proof -
  from waiting_ConsD [OF assms(1)] obtain s where
    s: "sock (snd st) = Some s" and c: "\<not> sock_closed (fst st) s" and
    i: "sock_inbox (fst st) s = (payload, sender) # rest"
    by blast
  have k: "0 \<le> in_message_length (snd st)"
    using assms(3) by linarith
  note ev = InNetwork_read_event [OF s c i assms(2) k, of decoder]
  obtain st' where r: "InNetwork_process_events decoder evmask st = Raise e st'"
    and q: "queue (snd st') = queue (snd st)"
    and b: "recv_buffer (snd st') =
             recv_buffer (snd st) @ take (nat (in_message_length (snd st))) payload"
    using assms(3,4) by (simp add: ev)
  have "waiting (state_of (InNetwork_process_events decoder evmask st)) = rest"
    by (rule InNetwork_read_event_waiting_state [OF s c i assms(2) k])
  then have w: "waiting st' = rest"
    by (simp add: r state_of_def)
  from r q b w show ?thesis by blast
qed

lemma InNetwork_equality_no_queue:
  fixes st :: "os \<times> ('r list, 'z) in_network_scheme"
  assumes "waiting st = (payload, sender) # rest" and "evmask \<noteq> 0"
    and "int (length (recv_buffer (snd st) @ take (nat (in_message_length (snd st))) payload))
           = in_message_length (snd st)"
    and "decoder (recv_buffer (snd st) @ take (nat (in_message_length (snd st))) payload)
           (byte_ordering (snd st)) = Inr r"
    and "queue (snd st) = None"
  shows "\<exists>st'. InNetwork_process_events decoder evmask st = Raise AttributeError st' \<and>
           queue (snd st') = None \<and>
           recv_buffer (snd st') =
             recv_buffer (snd st) @ take (nat (in_message_length (snd st))) payload \<and>
           waiting st' = rest"
proof -
  from waiting_ConsD [OF assms(1)] obtain s where
    s: "sock (snd st) = Some s" and c: "\<not> sock_closed (fst st) s" and
    i: "sock_inbox (fst st) s = (payload, sender) # rest"
    by blast
  have k: "0 \<le> in_message_length (snd st)"
    using assms(3) by linarith
  note ev = InNetwork_read_event [OF s c i assms(2) k, of decoder]
  obtain st' where r: "InNetwork_process_events decoder evmask st = Raise AttributeError st'"
    and q: "queue (snd st') = None"
    and b: "recv_buffer (snd st') =
             recv_buffer (snd st) @ take (nat (in_message_length (snd st))) payload"
    using assms(3,4,5) by (simp add: ev)
  have "waiting (state_of (InNetwork_process_events decoder evmask st)) = rest"
    by (rule InNetwork_read_event_waiting_state [OF s c i assms(2) k])
  then have w: "waiting st' = rest"
    by (simp add: r state_of_def)
  from r q b w show ?thesis by blast
qed

section \<open>The concrete channels, evaluated\<close>

lemma overshoot_start_eval:
  "waiting overshoot_start = [(replicate 80 2, (''10.0.0.7'', 5005))]"
  "recv_buffer (snd overshoot_start) = replicate 60 1"
  "in_message_length (snd overshoot_start) = 100"
  "queue (snd overshoot_start) = Some []"
  by (simp_all add: overshoot_start_def scenario_defs step_defs)

lemma fragments_start_eval:
  "waiting fragments_start = [(replicate 424 3, (''10.0.0.7'', 5005))]"
  "recv_buffer (snd fragments_start) = replicate 300 1 @ replicate 300 2"
  "in_message_length (snd fragments_start) = 1024"
  "queue (snd fragments_start) = Some []"
  "byte_ordering (snd fragments_start) = CHR ''<''"
  by (simp_all add: fragments_start_def scenario_defs step_defs)

lemma demand_second_eval:
  "waiting demand_second = [([], (''127.0.0.1'', 5005))]"
  "clients (snd demand_second) = [(''127.0.0.1'', 4004)]"
  "queue (snd demand_second) = Some (Some [8])"
  "sock (snd demand_second) = Some 0"
  "settings (snd demand_second) = Some (out_cfg True [] [])"
  "outbox (fst demand_second) = [(0, [9], (''127.0.0.1'', 4004))]"
  "sendto_error 0 [8] (''127.0.0.1'', 4004) (fst demand_second) = None"
  "sendto_error 0 [8] (''127.0.0.1'', 5005) (fst demand_second) = None"
  by (simp_all add: demand_second_def scenario_defs step_defs)

section \<open>Properties of the channels\<close>

text \<open>
  C8. The client registry never holds an address twice. From a registry without duplicates,
  \<^verbatim>\<open>add_client\<close> and every sequence of calls of \<^verbatim>\<open>receive\<close> leave it without duplicates;
  after an address has been added it has exactly one entry, whatever the registry held
  before; adding an address that is already present changes nothing, and the address keeps
  its one entry through any sequence of receives; and once a waiting datagram has been
  received, its sender has exactly one entry after any further sequence of receives, from
  this source or from others.
\<close>

theorem client_registry_distinct:
  assumes "distinct (clients (snd st))"
  shows "distinct (clients (snd (add_client a st))) \<and>
         distinct (clients (snd (receive_all ks st))) \<and>
         count_list (clients (snd (add_client (Tuple c) st))) c = 1 \<and>
         (c \<in> set (clients (snd st)) \<longrightarrow>
            add_client (Tuple c) st = st \<and>
            count_list (clients (snd (receive_all ks st))) c = 1) \<and>
         (waiting st = (payload, c) # rest \<and> 0 \<le> k \<longrightarrow>
            count_list (clients (snd (receive_all (k # ks) st))) c = 1)"
proof -
  have 1: "distinct (clients (snd (add_client a st)))"
    using assms by (rule add_client_distinct)
  have 2: "distinct (clients (snd (receive_all ks st)))"
    using assms by (rule receive_all_distinct)
  have 3: "count_list (clients (snd (add_client (Tuple c) st))) c = 1"
    using assms by (rule add_client_Tuple_count)
  have 4: "add_client (Tuple c) st = st \<and>
           count_list (clients (snd (receive_all ks st))) c = 1"
    if "c \<in> set (clients (snd st))"
    using that assms by (simp add: add_client_def add_client1_known receive_all_keeps)
  have 5: "count_list (clients (snd (receive_all (k # ks) st))) c = 1"
    if "waiting st = (payload, c) # rest \<and> 0 \<le> k"
  proof -
    from that have "c \<in> set (clients (snd (state_of (receive k st))))"
      by (intro receive_registers) simp_all
    moreover have "distinct (clients (snd (state_of (receive k st))))"
      using assms by (rule receive_distinct)
    ultimately show ?thesis
      by (simp add: receive_all_keeps)
  qed
  from 1 2 3 4 5 show ?thesis by blast
qed

theorem client_registry_distinct_witness:
  "distinct (clients (snd (out_chan (out_cfg True [''127.0.0.1''] [7001]) (None :: bytes mailbox)
      [([1], (''127.0.0.1'', 5005)), ([2, 3], (''127.0.0.1'', 5005)), ([4], (''127.0.0.1'', 5005))]))) \<and>
   waiting (out_chan (out_cfg True [''127.0.0.1''] [7001]) (None :: bytes mailbox)
      [([1], (''127.0.0.1'', 5005)), ([2, 3], (''127.0.0.1'', 5005)), ([4], (''127.0.0.1'', 5005))])
     = ([1], (''127.0.0.1'', 5005)) # [([2, 3], (''127.0.0.1'', 5005)), ([4], (''127.0.0.1'', 5005))] \<and>
   (''127.0.0.1'', 7001) \<in> set (clients (snd (out_chan (out_cfg True [''127.0.0.1''] [7001])
      (None :: bytes mailbox)
      [([1], (''127.0.0.1'', 5005)), ([2, 3], (''127.0.0.1'', 5005)), ([4], (''127.0.0.1'', 5005))]))) \<and>
   count_list (clients (snd (receive_all [1024, 1024, 1024]
     (out_chan (out_cfg True [''127.0.0.1''] [7001]) (None :: bytes mailbox)
      [([1], (''127.0.0.1'', 5005)), ([2, 3], (''127.0.0.1'', 5005)), ([4], (''127.0.0.1'', 5005))]))))
     (''127.0.0.1'', 5005) = 1 \<and>
   count_list (clients (snd (receive_all [1024, 1024, 1024]
     (out_chan (out_cfg True [''127.0.0.1''] [7001]) (None :: bytes mailbox)
      [([1], (''127.0.0.1'', 5005)), ([2, 3], (''127.0.0.1'', 5005)), ([4], (''127.0.0.1'', 5005))]))))
     (''127.0.0.1'', 7001) = 1 \<and>
   clients (snd (receive_all [1024, 1024, 1024]
     (out_chan (out_cfg True [''127.0.0.1''] [7001]) (None :: bytes mailbox)
      [([1], (''127.0.0.1'', 5005)), ([2, 3], (''127.0.0.1'', 5005)), ([4], (''127.0.0.1'', 5005))])))
     = [(''127.0.0.1'', 7001), (''127.0.0.1'', 5005)]"
proof -
  let ?st = "out_chan (out_cfg True [''127.0.0.1''] [7001]) (None :: bytes mailbox)
      [([1], (''127.0.0.1'', 5005)), ([2, 3], (''127.0.0.1'', 5005)), ([4], (''127.0.0.1'', 5005))]"
  have h1: "distinct (clients (snd ?st))"
    by (simp add: scenario_defs)
  have h2: "waiting ?st
     = ([1], (''127.0.0.1'', 5005)) # [([2, 3], (''127.0.0.1'', 5005)), ([4], (''127.0.0.1'', 5005))]"
    by (simp add: scenario_defs waiting_def)
  have h3: "(''127.0.0.1'', 7001) \<in> set (clients (snd ?st))"
    by (simp add: scenario_defs)
  have h4: "(0::int) \<le> 1024" by simp
  from client_registry_distinct [OF h1, of _ "[1024, 1024]" "(''127.0.0.1'', 5005)" _ _ 1024] h2 h4
  have a: "count_list (clients (snd (receive_all [1024, 1024, 1024] ?st))) (''127.0.0.1'', 5005) = 1"
    by blast
  from client_registry_distinct [OF h1, of _ "[1024, 1024, 1024]" "(''127.0.0.1'', 7001)"] h3
  have b: "count_list (clients (snd (receive_all [1024, 1024, 1024] ?st))) (''127.0.0.1'', 7001) = 1"
    by blast
  have c: "clients (snd (receive_all [1024, 1024, 1024] ?st))
     = [(''127.0.0.1'', 7001), (''127.0.0.1'', 5005)]"
    by (simp add: scenario_defs step_defs)
  from h1 h2 h3 a b c show ?thesis by blast
qed

text \<open>
  C9 (as stated). The claim has \<^verbatim>\<open>receive\<close> return the sender's address together with the
  bytes. The call returns the bytes alone: the same payload from two different senders gives
  the same returned value.
\<close>

theorem receive_returns_sender_counterexample:
  "value_of (receive 1024 (in_chan 1024 [([1, 2], (''10.0.0.7'', 5005))] :: os \<times> bytes list in_network))
     = Some [1, 2] \<and>
   value_of (receive 1024 (in_chan 1024 [([1, 2], (''10.0.0.8'', 6006))] :: os \<times> bytes list in_network))
     = Some [1, 2]"
  by (simp add: scenario_defs step_defs)

text \<open>
  C9 (amended). Every successful call of \<^verbatim>\<open>receive\<close> returns the raw bytes only, the first
  \<open>k\<close> bytes at most of the oldest waiting datagram, which it consumes; the sender's address
  is not returned, it is registered in the client registry, which gains no other address.
\<close>

theorem receive_returns_bytes:
  assumes "receive k st = Return m st'"
  shows "\<exists>s payload sender rest.
           sock (snd st) = Some s \<and> sock_inbox (fst st) s = (payload, sender) # rest \<and>
           m = take (nat k) payload \<and> int (length m) \<le> k \<and>
           sock_inbox (fst st') s = rest \<and>
           sender \<in> set (clients (snd st')) \<and>
           set (clients (snd st')) = insert sender (set (clients (snd st)))"
proof -
  from receive_ReturnD [OF assms] obtain s payload sender rest where
    s: "sock (snd st) = Some s" and c: "\<not> sock_closed (fst st) s" and k: "0 \<le> k" and
    i: "sock_inbox (fst st) s = (payload, sender) # rest"
    by blast
  let ?w = "logger_info (ReceivedPacket (length (take (nat k) payload)) sender)
              (set_inbox s rest (fst st))"
  have "Return (take (nat k) payload) (add_client (Tuple sender) (?w, snd st)) = Return m st'"
    by (rule trans [OF receive_Return [OF s c i k, symmetric] assms])
  then have m: "m = take (nat k) payload" and st': "st' = add_client (Tuple sender) (?w, snd st)"
    by blast+
  from pending_in_range [OF i] have r: "s < length (sockets (fst st))" by simp
  have "sock_inbox (fst st') s = rest"
    using r by (simp add: st' add_client_Tuple_os sock_inbox_set_inbox)
  moreover have "int (length m) \<le> k"
    using k by (simp add: m)
  moreover have "set (clients (snd st')) = insert sender (set (clients (snd st)))"
    by (auto simp: st' add_client_Tuple_clients)
  ultimately show ?thesis
    using s i m by blast
qed

theorem receive_returns_bytes_witness:
  "receive 4 (in_chan 1024 [([1, 2, 3, 4, 5, 6], (''10.0.0.7'', 5005))] :: os \<times> bytes list in_network)
     = Return [1, 2, 3, 4]
         (state_of (receive 4 (in_chan 1024 [([1, 2, 3, 4, 5, 6], (''10.0.0.7'', 5005))]))) \<and>
   (\<exists>s payload sender rest.
      sock (snd (in_chan 1024 [([1, 2, 3, 4, 5, 6], (''10.0.0.7'', 5005))] :: os \<times> bytes list in_network)) = Some s \<and>
      sock_inbox (fst (in_chan 1024 [([1, 2, 3, 4, 5, 6], (''10.0.0.7'', 5005))] :: os \<times> bytes list in_network)) s
        = (payload, sender) # rest \<and>
      [1, 2, 3, 4] = take (nat 4) payload \<and>
      sender \<in> set (clients (snd (state_of (receive 4
        (in_chan 1024 [([1, 2, 3, 4, 5, 6], (''10.0.0.7'', 5005))] :: os \<times> bytes list in_network))))))"
proof -
  have h: "receive 4 (in_chan 1024 [([1, 2, 3, 4, 5, 6], (''10.0.0.7'', 5005))] :: os \<times> bytes list in_network)
     = Return [1, 2, 3, 4]
         (state_of (receive 4 (in_chan 1024 [([1, 2, 3, 4, 5, 6], (''10.0.0.7'', 5005))])))"
    by (simp add: scenario_defs step_defs)
  from receive_returns_bytes [OF h] h show ?thesis by blast
qed

text \<open>
  C10. When the base initialisation of a freshly constructed OutNetwork returns, so does the
  initialisation of OutNetwork, in push and in on-demand mode alike, and the client registry
  then holds the positional pairs of \<^verbatim>\<open>destination_address\<close> and \<^verbatim>\<open>destination_ports\<close>,
  each once, in the order of their first occurrence; the pairing stops at the end of the
  shorter list, and the surplus of the longer one is dropped without an error.
\<close>

theorem OutNetwork_initialise_clients:
  assumes "Network_initialise mode cfg (w, Network_init host prt :: 'q network) = Return () st1"
  shows "\<exists>st2. OutNetwork_initialise mode cfg (w, Network_init host prt :: 'q network) = Return () st2 \<and>
           clients (snd st2) =
             rev (remdups (rev (zip (destination_address cfg) (destination_ports cfg)))) \<and>
           zip (destination_address cfg) (destination_ports cfg) =
             zip (take (min (length (destination_address cfg)) (length (destination_ports cfg)))
                    (destination_address cfg))
                 (take (min (length (destination_address cfg)) (length (destination_ports cfg)))
                    (destination_ports cfg))"
proof -
  from Network_initialise_ReturnD [OF assms] have
    cfg: "settings (snd st1) = Some cfg" and c: "clients (snd st1) = []"
    by (simp_all add: Network_init_def)
  let ?st = "if \<not> send_on_demand cfg \<and> length (destination_address cfg) = 0
             then (logger_warning NoDestinationHost (fst st1), snd st1) else st1"
  let ?cs = "zip (destination_address cfg) (destination_ports cfg)"
  have e: "OutNetwork_initialise mode cfg (w, Network_init host prt) =
             Return () (fold add_client1 ?cs ?st)"
    using assms cfg by (simp add: OutNetwork_initialise_def add_client_def Let_def)
  have "clients (snd ?st) = []" using c by simp
  then have f: "clients (snd (fold add_client1 ?cs ?st)) = rev (remdups (rev ?cs))"
    using fold_add_client1_clients [of ?st ?cs] by simp
  show ?thesis
    by (rule exI [of _ "fold add_client1 ?cs ?st"])
       (rule conjI [OF e conjI [OF f zip_truncates]])
qed

theorem OutNetwork_initialise_clients_witness:
  "returns (Network_initialise ''rw'' (out_cfg False [''10.0.0.1'', ''10.0.0.2'', ''10.0.0.1'', ''10.0.0.3''] [7001, 7002, 7001])
      (os0, Network_init None None :: bytes mailbox network)) \<and>
   returns (OutNetwork_initialise ''rw'' (out_cfg False [''10.0.0.1'', ''10.0.0.2'', ''10.0.0.1'', ''10.0.0.3''] [7001, 7002, 7001])
      (os0, Network_init None None :: bytes mailbox network)) \<and>
   clients (snd (state_of (OutNetwork_initialise ''rw''
      (out_cfg False [''10.0.0.1'', ''10.0.0.2'', ''10.0.0.1'', ''10.0.0.3''] [7001, 7002, 7001])
      (os0, Network_init None None :: bytes mailbox network))))
     = [(''10.0.0.1'', 7001), (''10.0.0.2'', 7002)]"
proof -
  let ?cfg = "out_cfg False [''10.0.0.1'', ''10.0.0.2'', ''10.0.0.1'', ''10.0.0.3''] [7001, 7002, 7001]"
  let ?st = "(os0, Network_init None None :: bytes mailbox network)"
  have h: "Network_initialise ''rw'' ?cfg ?st = Return () (state_of (Network_initialise ''rw'' ?cfg ?st))"
    by (simp add: scenario_defs)
  from OutNetwork_initialise_clients [OF h] obtain st2 where
    "OutNetwork_initialise ''rw'' ?cfg ?st = Return () st2" and
    "clients (snd st2) = rev (remdups (rev (zip (destination_address ?cfg) (destination_ports ?cfg))))"
    by blast
  moreover have "returns (Network_initialise ''rw'' ?cfg ?st)"
    by (subst h) (simp add: returns_def)
  ultimately show ?thesis
    by (simp add: returns_def state_of_def out_cfg_def)
qed

text \<open>
  C1 (as stated). The claim has the channel reset the buffer when a datagram makes it longer
  than the message length. With message length 100, 60 bytes taken and 80 bytes arriving, the
  event returns and the buffer holds all 140 bytes.
\<close>

theorem InNetwork_overshoot_counterexample:
  "returns (InNetwork_process_events raw_decoder EVENT_READ overshoot_start) \<and>
   length (recv_buffer (snd (state_of
     (InNetwork_process_events raw_decoder EVENT_READ overshoot_start)))) = 140 \<and>
   recv_buffer (snd (state_of
     (InNetwork_process_events raw_decoder EVENT_READ overshoot_start))) \<noteq> []"
  by (simp add: overshoot_start_def scenario_defs step_defs)

text \<open>
  C1 (amended). When the bytes taken by an event make the buffer strictly longer than the
  message length, the event returns without an error, no record reaches the queue, the
  buffer keeps every accumulated byte (it is not reset), and the only records logged are the
  INFO records of any read: no violation is reported.
\<close>

theorem InNetwork_overshoot:
  fixes st :: "os \<times> ('r list, 'z) in_network_scheme"
  assumes "waiting st = (payload, sender) # rest" and "evmask \<noteq> 0"
    and "0 \<le> in_message_length (snd st)"
    and "in_message_length (snd st)
           < int (length (recv_buffer (snd st) @ take (nat (in_message_length (snd st))) payload))"
  shows "\<exists>st'. InNetwork_process_events decoder evmask st = Return () st' \<and>
           recv_buffer (snd st') =
             recv_buffer (snd st) @ take (nat (in_message_length (snd st))) payload \<and>
           queue (snd st') = queue (snd st) \<and>
           waiting st' = rest \<and>
           logs (fst st') =
             logs (fst st) @
             [(INFO, InWaiting (in_message_length (snd st))),
              (INFO, ReceivedPacket (length (take (nat (in_message_length (snd st))) payload)) sender)] @
             (if sender \<in> set (clients (snd st)) then [] else [(INFO, AddedNewClient sender)])"
proof -
  from waiting_ConsD [OF assms(1)] obtain s where
    s: "sock (snd st) = Some s" and c: "\<not> sock_closed (fst st) s" and
    i: "sock_inbox (fst st) s = (payload, sender) # rest"
    by blast
  note ev = InNetwork_read_event [OF s c i assms(2,3), of decoder]
  let ?L = "in_message_length (snd st)"
  let ?st1 = "add_client (Tuple sender)
                (logger_info (ReceivedPacket (length (take (nat ?L) payload)) sender)
                   (set_inbox s rest (logger_info (InWaiting ?L) (fst st))), snd st)"
  let ?st' = "(fst ?st1, (snd ?st1)\<lparr>recv_buffer := recv_buffer (snd st) @ take (nat ?L) payload\<rparr>)"
  have r: "InNetwork_process_events decoder evmask st = Return () ?st'"
    using assms(4) by (simp add: ev)
  have w: "waiting ?st' = rest"
    by (rule InNetwork_read_event_waiting [OF s c r i assms(2,3)])
  have l: "logs (fst ?st') =
             logs (fst st) @
             [(INFO, InWaiting ?L), (INFO, ReceivedPacket (length (take (nat ?L) payload)) sender)] @
             (if sender \<in> set (clients (snd st)) then [] else [(INFO, AddedNewClient sender)])"
    by (simp add: add_client_Tuple_os)
  have b: "recv_buffer (snd ?st') = recv_buffer (snd st) @ take (nat ?L) payload"
    and q: "queue (snd ?st') = queue (snd st)"
    by simp_all
  show ?thesis
    by (rule exI [of _ ?st']) (rule conjI [OF r conjI [OF b conjI [OF q conjI [OF w l]]]])
qed

theorem InNetwork_overshoot_witness:
  "waiting overshoot_start = [(replicate 80 2, (''10.0.0.7'', 5005))] \<and>
   EVENT_READ \<noteq> 0 \<and>
   0 \<le> in_message_length (snd overshoot_start) \<and>
   in_message_length (snd overshoot_start)
     < int (length (recv_buffer (snd overshoot_start) @
         take (nat (in_message_length (snd overshoot_start))) (replicate 80 2))) \<and>
   (\<exists>st'. InNetwork_process_events raw_decoder EVENT_READ overshoot_start = Return () st' \<and>
      recv_buffer (snd st') = replicate 60 1 @ replicate 80 2 \<and>
      queue (snd st') = Some [] \<and> waiting st' = [])"
proof -
  have h1: "waiting overshoot_start = (replicate 80 2, (''10.0.0.7'', 5005)) # []"
    by (simp add: overshoot_start_eval)
  have h2: "EVENT_READ \<noteq> 0" by (simp add: EVENT_READ_def)
  have h3: "0 \<le> in_message_length (snd overshoot_start)"
    by (simp add: overshoot_start_eval)
  have h4: "in_message_length (snd overshoot_start)
     < int (length (recv_buffer (snd overshoot_start) @
         take (nat (in_message_length (snd overshoot_start))) (replicate 80 2)))"
    by (simp add: overshoot_start_eval)
  from InNetwork_overshoot [OF h1 h2 h3 h4, of raw_decoder] obtain st' where
    "InNetwork_process_events raw_decoder EVENT_READ overshoot_start = Return () st'" and
    "recv_buffer (snd st') = replicate 60 1 @ replicate 80 2" and
    "queue (snd st') = Some []" and "waiting st' = []"
    by (auto simp: overshoot_start_eval)
  with h1 h2 h3 h4 show ?thesis by blast
qed


text \<open>
  C2 (as stated). The claim has the channel ask the socket for no more than the bytes still
  missing, so that the buffer never exceeds the message length. With message length 100 and
  60 bytes in the buffer, the event takes all 80 bytes of the waiting datagram and the buffer
  is 140 bytes long.
\<close>

theorem InNetwork_requests_full_length_counterexample:
  "length (recv_buffer (snd overshoot_start)) = 60 \<and>
   in_message_length (snd overshoot_start) = 100 \<and>
   returns (InNetwork_process_events raw_decoder EVENT_READ overshoot_start) \<and>
   recv_buffer (snd (state_of (InNetwork_process_events raw_decoder EVENT_READ overshoot_start)))
     = recv_buffer (snd overshoot_start) @ replicate 80 2 \<and>
   \<not> int (length (recv_buffer (snd (state_of
          (InNetwork_process_events raw_decoder EVENT_READ overshoot_start)))))
       \<le> in_message_length (snd overshoot_start)"
  by (simp add: overshoot_start_def scenario_defs step_defs)

text \<open>
  C2 (amended). On every READ-ready event that returns, the channel has asked the socket for
  the whole message length, whatever the buffer held: a datagram was waiting, it is consumed,
  and its first \<open>in_message_length\<close> bytes are appended. The buffer is then empty when the
  appended buffer had exactly the message length, and is the appended buffer otherwise; so
  it is empty or of a length other than the message length, and it grows by the message
  length at most in one event.
\<close>

theorem InNetwork_requests_full_length:
  fixes st :: "os \<times> ('r list, 'z) in_network_scheme"
  assumes "evmask AND EVENT_READ \<noteq> 0"
    and "InNetwork_process_events decoder evmask st = Return () st'"
  shows "\<exists>payload sender rest.
           waiting st = (payload, sender) # rest \<and> waiting st' = rest \<and>
           (if int (length (recv_buffer (snd st) @ take (nat (in_message_length (snd st))) payload))
                 = in_message_length (snd st)
            then recv_buffer (snd st') = []
            else recv_buffer (snd st') =
                   recv_buffer (snd st) @ take (nat (in_message_length (snd st))) payload) \<and>
           (recv_buffer (snd st') = [] \<or>
            int (length (recv_buffer (snd st'))) \<noteq> in_message_length (snd st)) \<and>
           int (length (recv_buffer (snd st')))
             \<le> int (length (recv_buffer (snd st))) + in_message_length (snd st)"
proof -
  have m: "evmask \<noteq> 0"
    using assms(1) by (rule mask_includes_nonzero)
  from InNetwork_Return_readD [OF m assms(2)] obtain payload sender rest where
    w0: "waiting st = (payload, sender) # rest" and k: "0 \<le> in_message_length (snd st)"
    by blast
  from waiting_ConsD [OF w0] obtain s where
    s: "sock (snd st) = Some s" and c: "\<not> sock_closed (fst st) s" and
    i: "sock_inbox (fst st) s = (payload, sender) # rest"
    by blast
  note ev = InNetwork_read_event [OF s c i m k, of decoder]
  have w: "waiting st' = rest"
    by (rule InNetwork_read_event_waiting [OF s c assms(2) i m k])
  have b: "if int (length (recv_buffer (snd st) @ take (nat (in_message_length (snd st))) payload))
               = in_message_length (snd st)
           then recv_buffer (snd st') = []
           else recv_buffer (snd st') =
                  recv_buffer (snd st) @ take (nat (in_message_length (snd st))) payload"
    using assms(2) by (auto simp: ev split: if_splits sum.splits option.splits)
  from b have n: "recv_buffer (snd st') = [] \<or>
          int (length (recv_buffer (snd st'))) \<noteq> in_message_length (snd st)"
    by (auto split: if_splits)
  from b k have u: "int (length (recv_buffer (snd st')))
           \<le> int (length (recv_buffer (snd st))) + in_message_length (snd st)"
    by (auto split: if_splits)
  from w0 w b n u show ?thesis by blast
qed

theorem InNetwork_requests_full_length_witness:
  "EVENT_READ AND EVENT_READ \<noteq> 0 \<and>
   InNetwork_process_events raw_decoder EVENT_READ overshoot_start =
     Return () (state_of (InNetwork_process_events raw_decoder EVENT_READ overshoot_start)) \<and>
   waiting overshoot_start = [(replicate 80 2, (''10.0.0.7'', 5005))] \<and>
   waiting (state_of (InNetwork_process_events raw_decoder EVENT_READ overshoot_start)) = [] \<and>
   recv_buffer (snd (state_of (InNetwork_process_events raw_decoder EVENT_READ overshoot_start)))
     = replicate 60 1 @ replicate 80 2"
proof -
  have h1: "EVENT_READ AND EVENT_READ \<noteq> 0" by (simp add: EVENT_READ_def)
  have h2: "InNetwork_process_events raw_decoder EVENT_READ overshoot_start =
     Return () (state_of (InNetwork_process_events raw_decoder EVENT_READ overshoot_start))"
    by (simp add: overshoot_start_def scenario_defs step_defs)
  from InNetwork_requests_full_length [OF h1 h2] have
    "waiting (state_of (InNetwork_process_events raw_decoder EVENT_READ overshoot_start)) = []" and
    "recv_buffer (snd (state_of (InNetwork_process_events raw_decoder EVENT_READ overshoot_start)))
       = replicate 60 1 @ replicate 80 2"
    by (auto simp: overshoot_start_eval)
  with h1 h2 show ?thesis by (simp add: overshoot_start_eval)
qed

text \<open>
  C7 (as stated). The claim has every buffer that reaches the message length decoded, pushed
  and reset. When the decoder rejects the complete buffer, the event raises, nothing reaches
  the queue and the buffer keeps its 1024 bytes.
\<close>

theorem InNetwork_complete_record_counterexample:
  "waiting fragments_start = [(replicate 424 3, (''10.0.0.7'', 5005))] \<and>
   int (length (recv_buffer (snd fragments_start) @ replicate 424 3))
     = in_message_length (snd fragments_start) \<and>
   \<not> returns (InNetwork_process_events failing_decoder EVENT_READ fragments_start) \<and>
   queue (snd (state_of (InNetwork_process_events failing_decoder EVENT_READ fragments_start)))
     = Some [] \<and>
   length (recv_buffer (snd (state_of
     (InNetwork_process_events failing_decoder EVENT_READ fragments_start)))) = 1024 \<and>
   recv_buffer (snd (state_of
     (InNetwork_process_events failing_decoder EVENT_READ fragments_start))) \<noteq> []"
  by (simp add: fragments_start_def scenario_defs step_defs)

text \<open>
  C7 (amended). When the bytes taken by a READ-ready event make the buffer exactly as long as
  the message length, the buffer is handed to the decoder. If the decoder returns a record
  and a queue is bound, the event returns with that one record appended to the queue and
  with an empty buffer. If the decoder raises, or no queue is bound, the event raises,
  the queue is as before and the buffer keeps the complete message. Conversely an event,
  however it ends, changes the queue only on the first of these paths: the buffer had
  reached the message length and the queue has gained the one decoded record.
\<close>

theorem InNetwork_complete_record:
  fixes st :: "os \<times> ('r list, 'z) in_network_scheme"
  shows "(waiting st = (payload, sender) # rest \<and> evmask AND EVENT_READ \<noteq> 0 \<and>
          int (length (recv_buffer (snd st) @ take (nat (in_message_length (snd st))) payload))
            = in_message_length (snd st) \<longrightarrow>
          (case decoder (recv_buffer (snd st) @ take (nat (in_message_length (snd st))) payload)
                  (byte_ordering (snd st)) of
             Inr r \<Rightarrow>
               (case queue (snd st) of
                  Some q \<Rightarrow>
                    (\<exists>st'. InNetwork_process_events decoder evmask st = Return () st' \<and>
                       queue (snd st') = Some (q @ [r]) \<and> recv_buffer (snd st') = [] \<and>
                       waiting st' = rest)
                | None \<Rightarrow>
                    (\<exists>st'. InNetwork_process_events decoder evmask st = Raise AttributeError st' \<and>
                       queue (snd st') = None \<and>
                       recv_buffer (snd st') =
                         recv_buffer (snd st) @ take (nat (in_message_length (snd st))) payload \<and>
                       waiting st' = rest))
           | Inl e \<Rightarrow>
               (\<exists>st'. InNetwork_process_events decoder evmask st = Raise e st' \<and>
                  queue (snd st') = queue (snd st) \<and>
                  recv_buffer (snd st') =
                    recv_buffer (snd st) @ take (nat (in_message_length (snd st))) payload \<and>
                  waiting st' = rest))) \<and>
         (queue (snd (state_of (InNetwork_process_events decoder evmask st))) \<noteq> queue (snd st) \<longrightarrow>
          (\<exists>payload' sender' rest' q' r'.
             waiting st = (payload', sender') # rest' \<and> evmask \<noteq> 0 \<and>
             int (length (recv_buffer (snd st) @ take (nat (in_message_length (snd st))) payload'))
               = in_message_length (snd st) \<and>
             decoder (recv_buffer (snd st) @ take (nat (in_message_length (snd st))) payload')
               (byte_ordering (snd st)) = Inr r' \<and>
             queue (snd st) = Some q' \<and>
             queue (snd (state_of (InNetwork_process_events decoder evmask st))) = Some (q' @ [r'])))"
proof -
  let ?buf = "recv_buffer (snd st) @ take (nat (in_message_length (snd st))) payload"
  have 1: "case decoder ?buf (byte_ordering (snd st)) of
             Inr r \<Rightarrow>
               (case queue (snd st) of
                  Some q \<Rightarrow>
                    (\<exists>st'. InNetwork_process_events decoder evmask st = Return () st' \<and>
                       queue (snd st') = Some (q @ [r]) \<and> recv_buffer (snd st') = [] \<and>
                       waiting st' = rest)
                | None \<Rightarrow>
                    (\<exists>st'. InNetwork_process_events decoder evmask st = Raise AttributeError st' \<and>
                       queue (snd st') = None \<and> recv_buffer (snd st') = ?buf \<and> waiting st' = rest))
           | Inl e \<Rightarrow>
               (\<exists>st'. InNetwork_process_events decoder evmask st = Raise e st' \<and>
                  queue (snd st') = queue (snd st) \<and> recv_buffer (snd st') = ?buf \<and>
                  waiting st' = rest)"
    if h: "waiting st = (payload, sender) # rest \<and> evmask AND EVENT_READ \<noteq> 0 \<and>
           int (length ?buf) = in_message_length (snd st)"
  proof -
    from h have w: "waiting st = (payload, sender) # rest"
      and e: "int (length ?buf) = in_message_length (snd st)"
      by simp_all
    from h have m: "evmask \<noteq> 0"
      by (intro mask_includes_nonzero [of evmask EVENT_READ]) simp
    show ?thesis
    proof (cases "decoder ?buf (byte_ordering (snd st))")
      case (Inl err)
      with InNetwork_equality_decoder_raises [of st payload sender rest evmask decoder, OF w m e Inl] show ?thesis by simp
    next
      case (Inr r)
      show ?thesis
      proof (cases "queue (snd st)")
        case None
        with Inr InNetwork_equality_no_queue [of st payload sender rest evmask decoder, OF w m e Inr None] show ?thesis by simp
      next
        case (Some q)
        with Inr InNetwork_equality_path [of st payload sender rest evmask decoder, OF w m e Inr Some] show ?thesis by simp
      qed
    qed
  qed
  from 1 InNetwork_queue_changed [of decoder evmask st] show ?thesis
    by blast
qed

theorem InNetwork_complete_record_witness:
  "waiting fragments_start = [(replicate 424 3, (''10.0.0.7'', 5005))] \<and>
   EVENT_READ AND EVENT_READ \<noteq> 0 \<and>
   int (length (recv_buffer (snd fragments_start) @
          take (nat (in_message_length (snd fragments_start))) (replicate 424 3)))
     = in_message_length (snd fragments_start) \<and>
   raw_decoder (recv_buffer (snd fragments_start) @
          take (nat (in_message_length (snd fragments_start))) (replicate 424 3))
       (byte_ordering (snd fragments_start))
     = Inr (replicate 300 1 @ replicate 300 2 @ replicate 424 3) \<and>
   queue (snd fragments_start) = Some [] \<and>
   queue (snd (state_of (InNetwork_process_events raw_decoder EVENT_READ fragments_start)))
     \<noteq> queue (snd fragments_start) \<and>
   (\<exists>st'. InNetwork_process_events raw_decoder EVENT_READ fragments_start = Return () st' \<and>
      queue (snd st') = Some [replicate 300 1 @ replicate 300 2 @ replicate 424 3] \<and>
      recv_buffer (snd st') = [] \<and> waiting st' = []) \<and>
   (\<exists>st'. InNetwork_process_events failing_decoder EVENT_READ fragments_start
             = Raise DecodeError st' \<and>
      queue (snd st') = Some [] \<and>
      recv_buffer (snd st') = replicate 300 1 @ replicate 300 2 @ replicate 424 3 \<and>
      waiting st' = [])"
proof -
  let ?r = "replicate 300 1 @ replicate 300 2 @ replicate 424 (3 :: byte)"
  have h1: "waiting fragments_start = (replicate 424 3, (''10.0.0.7'', 5005)) # []"
    by (simp add: fragments_start_eval)
  have h2: "EVENT_READ AND EVENT_READ \<noteq> 0" by (simp add: EVENT_READ_def)
  have h3: "int (length (recv_buffer (snd fragments_start) @
          take (nat (in_message_length (snd fragments_start))) (replicate 424 3)))
     = in_message_length (snd fragments_start)"
    by (simp add: fragments_start_eval)
  have h4: "raw_decoder (recv_buffer (snd fragments_start) @
          take (nat (in_message_length (snd fragments_start))) (replicate 424 3))
       (byte_ordering (snd fragments_start)) = Inr ?r"
    by (simp add: fragments_start_eval raw_decoder_def)
  have h5: "queue (snd fragments_start) = Some []"
    by (simp add: fragments_start_eval)
  have h6: "failing_decoder (recv_buffer (snd fragments_start) @
          take (nat (in_message_length (snd fragments_start))) (replicate 424 3))
       (byte_ordering (snd fragments_start)) = Inl DecodeError"
    by (simp add: failing_decoder_def)
  from InNetwork_complete_record
         [of fragments_start "replicate 424 3" "(''10.0.0.7'', 5005)" "[]" EVENT_READ raw_decoder]
       h1 h2 h3
  have "case raw_decoder (recv_buffer (snd fragments_start) @
          take (nat (in_message_length (snd fragments_start))) (replicate 424 3))
       (byte_ordering (snd fragments_start)) of
          Inr r \<Rightarrow>
               (case queue (snd fragments_start) of
                  Some q \<Rightarrow>
                    (\<exists>st'. InNetwork_process_events raw_decoder EVENT_READ fragments_start = Return () st' \<and>
                       queue (snd st') = Some (q @ [r]) \<and> recv_buffer (snd st') = [] \<and>
                       waiting st' = [])
                | None \<Rightarrow>
                    (\<exists>st'. InNetwork_process_events raw_decoder EVENT_READ fragments_start = Raise AttributeError st' \<and>
                       queue (snd st') = None \<and>
                       recv_buffer (snd st') =
                         recv_buffer (snd fragments_start) @ take (nat (in_message_length (snd fragments_start))) (replicate 424 3) \<and>
                       waiting st' = []))
           | Inl e \<Rightarrow>
               (\<exists>st'. InNetwork_process_events raw_decoder EVENT_READ fragments_start = Raise e st' \<and>
                  queue (snd st') = queue (snd fragments_start) \<and>
                  recv_buffer (snd st') =
                    recv_buffer (snd fragments_start) @ take (nat (in_message_length (snd fragments_start))) (replicate 424 3) \<and>
                  waiting st' = [])"
    by blast
  then have a: "\<exists>st'. InNetwork_process_events raw_decoder EVENT_READ fragments_start = Return () st' \<and>
      queue (snd st') = Some [?r] \<and> recv_buffer (snd st') = [] \<and> waiting st' = []"
    unfolding h4 h5 by simp
  then have h7: "queue (snd (state_of (InNetwork_process_events raw_decoder EVENT_READ fragments_start)))
     \<noteq> queue (snd fragments_start)"
    by (auto simp: state_of_def h5)
  from InNetwork_complete_record
         [of fragments_start "replicate 424 3" "(''10.0.0.7'', 5005)" "[]" EVENT_READ failing_decoder]
       h1 h2 h3
  have "case failing_decoder (recv_buffer (snd fragments_start) @
          take (nat (in_message_length (snd fragments_start))) (replicate 424 3))
       (byte_ordering (snd fragments_start)) of
          Inr r \<Rightarrow>
               (case queue (snd fragments_start) of
                  Some q \<Rightarrow>
                    (\<exists>st'. InNetwork_process_events failing_decoder EVENT_READ fragments_start = Return () st' \<and>
                       queue (snd st') = Some (q @ [r]) \<and> recv_buffer (snd st') = [] \<and>
                       waiting st' = [])
                | None \<Rightarrow>
                    (\<exists>st'. InNetwork_process_events failing_decoder EVENT_READ fragments_start = Raise AttributeError st' \<and>
                       queue (snd st') = None \<and>
                       recv_buffer (snd st') =
                         recv_buffer (snd fragments_start) @ take (nat (in_message_length (snd fragments_start))) (replicate 424 3) \<and>
                       waiting st' = []))
           | Inl e \<Rightarrow>
               (\<exists>st'. InNetwork_process_events failing_decoder EVENT_READ fragments_start = Raise e st' \<and>
                  queue (snd st') = queue (snd fragments_start) \<and>
                  recv_buffer (snd st') =
                    recv_buffer (snd fragments_start) @ take (nat (in_message_length (snd fragments_start))) (replicate 424 3) \<and>
                  waiting st' = [])"
    by blast
  then have b: "\<exists>st'. InNetwork_process_events failing_decoder EVENT_READ fragments_start
             = Raise DecodeError st' \<and>
      queue (snd st') = Some [] \<and> recv_buffer (snd st') = ?r \<and> waiting st' = []"
    unfolding h6 by (simp add: h5 fragments_start_eval)
  from a b h1 h2 h3 h4 h5 h7 show ?thesis by simp
qed

text \<open>
  C3 (as stated). The claim has the reply of an on-demand channel go to the requester alone.
  After a first requester has been answered, the request of a second one, handled under a
  mask with READ and WRITE, sends the new snapshot to both.
\<close>

theorem OutNetwork_reply_only_to_requester_counterexample:
  "waiting demand_second = [([], (''127.0.0.1'', 5005))] \<and>
   outbox (fst demand_second) = [(0, [9], (''127.0.0.1'', 4004))] \<and>
   returns (OutNetwork_process_events raw_encode (EVENT_READ OR EVENT_WRITE) demand_second) \<and>
   outbox (fst (state_of
     (OutNetwork_process_events raw_encode (EVENT_READ OR EVENT_WRITE) demand_second)))
     = [(0, [9], (''127.0.0.1'', 4004)), (0, [8], (''127.0.0.1'', 4004)),
        (0, [8], (''127.0.0.1'', 5005))]"
  by (simp add: demand_second_def scenario_defs step_defs)

text \<open>
  C3 (amended). In on-demand mode, an event whose mask includes READ and WRITE, that finds a
  request waiting and a snapshot in the mailbox which encodes, registers the requester, takes
  the snapshot out of the mailbox and sends its bytes to the addresses of the client
  registry in the order of the registry, the requester last when it is new, one datagram
  each, up to the first address for which \<^verbatim>\<open>sendto\<close> raises. The event returns exactly when
  no \<^verbatim>\<open>sendto\<close> raises, and then every registered address, the requester and those
  registered before it, has been sent one datagram.
\<close>

theorem OutNetwork_reply_to_all_clients:
  fixes st :: "os \<times> ('v mailbox, 'z) network_scheme"
  assumes "settings (snd st) = Some cfg" and "send_on_demand cfg"
    and "sock (snd st) = Some s"
    and "waiting st = (payload, requester) # rest"
    and "evmask AND EVENT_READ \<noteq> 0" and "evmask AND EVENT_WRITE \<noteq> 0"
    and "queue (snd st) = Some (Some v)" and "encode v = Inr b"
  defines "cs \<equiv> (if requester \<in> set (clients (snd st)) then clients (snd st)
                  else clients (snd st) @ [requester])"
  shows "clients (snd (state_of (OutNetwork_process_events encode evmask st))) = cs \<and>
         queue (snd (state_of (OutNetwork_process_events encode evmask st))) = Some None \<and>
         waiting (state_of (OutNetwork_process_events encode evmask st)) = rest \<and>
         outbox (fst (state_of (OutNetwork_process_events encode evmask st))) =
           outbox (fst st) @
           map (\<lambda>a. (s, b, a)) (takeWhile (\<lambda>a. sendto_error s b a (fst st) = None) cs) \<and>
         returns (OutNetwork_process_events encode evmask st) =
           list_all (\<lambda>a. sendto_error s b a (fst st) = None) cs"
proof -
  have mr: "evmask \<noteq> 0" using assms(5) by (rule mask_includes_nonzero)
  from waiting_ConsD [OF assms(4)] assms(3) have
    c: "\<not> sock_closed (fst st) s" and
    i: "sock_inbox (fst st) s = (payload, requester) # rest"
    by auto
  let ?w0 = "logger_info OutWaitingRequest (fst st)"
  let ?st1 = "add_client (Tuple requester)
                (logger_info (ReceivedPacket (length (take (nat 1024) payload)) requester)
                   (set_inbox s rest ?w0), snd st)"
  have r: "receive 1024 (?w0, snd st) = Return (take (nat 1024) payload) ?st1"
    by (rule receive_pending_in) (simp_all add: assms(3) c i)
  let ?w2 = "logger_info (MessageReady (length b))
               (logger_info OutGotMessage (logger_info OutReadyQueue
                  (logger_info ReceivedRequest (fst ?st1))))"
  let ?n2 = "(snd ?st1)\<lparr>queue := Some None\<rparr>"
  let ?R = "send_each b (clients ?n2) (?w2, ?n2)"
  have e: "OutNetwork_process_events encode evmask st = ?R"
    using assms(1,2,7,8) mr r
    by (simp add: OutNetwork_process_events_def truthy_def py_and_def EVENT_READ_def
          EVENT_WRITE_def Let_def send_def)
  have s2: "sock ?n2 = Some s" using assms(3) by simp
  have cl: "clients ?n2 = cs"
    by (simp add: cs_def add_client_Tuple_clients)
  have se: "sendto_error s b a ?w2 = sendto_error s b a (fst st)" for a
    by (rule sendto_error_same_network) (simp_all add: add_client_Tuple_os)
  note sr = send_each_result [OF s2, of b "clients ?n2" ?w2]
  have tw: "(\<lambda>a. sendto_error s b a ?w2 = None) = (\<lambda>a. sendto_error s b a (fst st) = None)"
    by (simp only: se)
  have 1: "snd (state_of ?R) = ?n2"
    by (rule sr [THEN conjunct1])
  have 2: "sockets (fst (state_of ?R)) = sockets ?w2"
    by (rule sr [THEN conjunct2, THEN conjunct1])
  have 3: "outbox (fst (state_of ?R)) =
          outbox ?w2 @ map (\<lambda>a. (s, b, a)) (takeWhile (\<lambda>a. sendto_error s b a (fst st) = None) cs)"
    using sr [THEN conjunct2, THEN conjunct2, THEN conjunct1] unfolding tw cl .
  have 4: "returns ?R = list_all (\<lambda>a. sendto_error s b a (fst st) = None) cs"
    using sr [THEN conjunct2, THEN conjunct2, THEN conjunct2] unfolding tw cl .
  have "waiting (state_of ?R) = waiting (set_inbox s rest ?w0, snd st)"
    using 1 2 by (intro waiting_sockets) simp_all
  also have "\<dots> = rest"
    using assms(3) c by (intro waiting_set_inbox) simp_all
  finally have 5: "waiting (state_of ?R) = rest" .
  have 6: "clients (snd (state_of ?R)) = cs" using 1 cl by simp
  have 7: "queue (snd (state_of ?R)) = Some None" using 1 by simp
  have 8: "outbox (fst (state_of ?R)) =
          outbox (fst st) @ map (\<lambda>a. (s, b, a)) (takeWhile (\<lambda>a. sendto_error s b a (fst st) = None) cs)"
    using 3 by simp
  from 4 5 6 7 8 show ?thesis
    unfolding e by blast
qed

theorem OutNetwork_reply_to_all_clients_witness:
  "settings (snd demand_second) = Some (out_cfg True [] []) \<and>
   send_on_demand (out_cfg True [] []) \<and>
   sock (snd demand_second) = Some 0 \<and>
   waiting demand_second = [([], (''127.0.0.1'', 5005))] \<and>
   (EVENT_READ OR EVENT_WRITE) AND EVENT_READ \<noteq> 0 \<and>
   (EVENT_READ OR EVENT_WRITE) AND EVENT_WRITE \<noteq> 0 \<and>
   queue (snd demand_second) = Some (Some [8]) \<and>
   raw_encode [8] = Inr [8] \<and>
   returns (OutNetwork_process_events raw_encode (EVENT_READ OR EVENT_WRITE) demand_second) \<and>
   clients (snd (state_of
     (OutNetwork_process_events raw_encode (EVENT_READ OR EVENT_WRITE) demand_second)))
     = [(''127.0.0.1'', 4004), (''127.0.0.1'', 5005)] \<and>
   outbox (fst (state_of
     (OutNetwork_process_events raw_encode (EVENT_READ OR EVENT_WRITE) demand_second)))
     = [(0, [9], (''127.0.0.1'', 4004)), (0, [8], (''127.0.0.1'', 4004)),
        (0, [8], (''127.0.0.1'', 5005))] \<and>
   queue (snd (state_of
     (OutNetwork_process_events raw_encode (EVENT_READ OR EVENT_WRITE) demand_second)))
     = Some None \<and>
   waiting (state_of
     (OutNetwork_process_events raw_encode (EVENT_READ OR EVENT_WRITE) demand_second)) = []"
proof -
  have h1: "settings (snd demand_second) = Some (out_cfg True [] [])"
    by (simp add: demand_second_eval)
  have h2: "send_on_demand (out_cfg True [] [])" by (simp add: out_cfg_def)
  have h3: "sock (snd demand_second) = Some 0" by (simp add: demand_second_eval)
  have h4: "waiting demand_second = ([], (''127.0.0.1'', 5005)) # []"
    by (simp add: demand_second_eval)
  have h5: "(EVENT_READ OR EVENT_WRITE) AND EVENT_READ \<noteq> 0"
    by (simp add: EVENT_READ_def EVENT_WRITE_def)
  have h6: "(EVENT_READ OR EVENT_WRITE) AND EVENT_WRITE \<noteq> 0"
    by (simp add: EVENT_READ_def EVENT_WRITE_def)
  have h7: "queue (snd demand_second) = Some (Some [8])" by (simp add: demand_second_eval)
  have h8: "raw_encode [8] = Inr [8]" by (simp add: raw_encode_def)
  note t = OutNetwork_reply_to_all_clients
             [where encode = raw_encode and v = "[8]", OF h1 h2 h3 h4 h5 h6 h7 h8]
  have c: "returns (OutNetwork_process_events raw_encode (EVENT_READ OR EVENT_WRITE) demand_second) \<and>
   clients (snd (state_of
     (OutNetwork_process_events raw_encode (EVENT_READ OR EVENT_WRITE) demand_second)))
     = [(''127.0.0.1'', 4004), (''127.0.0.1'', 5005)] \<and>
   outbox (fst (state_of
     (OutNetwork_process_events raw_encode (EVENT_READ OR EVENT_WRITE) demand_second)))
     = [(0, [9], (''127.0.0.1'', 4004)), (0, [8], (''127.0.0.1'', 4004)),
        (0, [8], (''127.0.0.1'', 5005))] \<and>
   queue (snd (state_of
     (OutNetwork_process_events raw_encode (EVENT_READ OR EVENT_WRITE) demand_second)))
     = Some None \<and>
   waiting (state_of
     (OutNetwork_process_events raw_encode (EVENT_READ OR EVENT_WRITE) demand_second)) = []"
    using t by (simp add: demand_second_eval)
  from h1 h2 h3 h4 h5 h6 h7 h8 c show ?thesis by blast
qed

text \<open>
  C4. The claim has the READ branch run only under a mask that includes READ, and the WRITE
  branch only under one that includes WRITE. The code tests \<^verbatim>\<open>mask and EVENT_READ\<close>, which is
  truthy for every non-zero mask. Under the mask WRITE alone an on-demand output channel
  reads the waiting request and registers its sender, or raises when nothing waits, and an
  input channel reads the waiting datagram; under the mask READ alone a push channel sends
  its snapshot.
\<close>

theorem process_events_mask_test_fails:
  "EVENT_WRITE AND EVENT_READ = 0 \<and>
   waiting (out_chan (out_cfg True [] []) (Some [9]) [([], (''127.0.0.1'', 5005))]) =
     [([], (''127.0.0.1'', 5005))] \<and>
   returns (OutNetwork_process_events raw_encode EVENT_WRITE
     (out_chan (out_cfg True [] []) (Some [9]) [([], (''127.0.0.1'', 5005))])) \<and>
   waiting (state_of (OutNetwork_process_events raw_encode EVENT_WRITE
     (out_chan (out_cfg True [] []) (Some [9]) [([], (''127.0.0.1'', 5005))]))) = [] \<and>
   clients (snd (state_of (OutNetwork_process_events raw_encode EVENT_WRITE
     (out_chan (out_cfg True [] []) (Some [9]) [([], (''127.0.0.1'', 5005))]))))
     = [(''127.0.0.1'', 5005)] \<and>
   OutNetwork_process_events raw_encode EVENT_WRITE (out_chan (out_cfg True [] []) (Some [9]) []) =
     Raise BlockingIOError
       (logger_info OutWaitingRequest (fst (out_chan (out_cfg True [] []) (Some [9]) [])),
        snd (out_chan (out_cfg True [] []) (Some [9]) [])) \<and>
   waiting (state_of (InNetwork_process_events raw_decoder EVENT_WRITE
     (in_chan 1024 [([1, 2], (''127.0.0.1'', 5005))]))) = [] \<and>
   recv_buffer (snd (state_of (InNetwork_process_events raw_decoder EVENT_WRITE
     (in_chan 1024 [([1, 2], (''127.0.0.1'', 5005))])))) = [1, 2] \<and>
   EVENT_READ AND EVENT_WRITE = 0 \<and>
   outbox (fst (state_of (OutNetwork_process_events raw_encode EVENT_READ
     (out_chan (out_cfg False [''127.0.0.1''] [7001]) (Some [9]) []))))
     = [(0, [9], (''127.0.0.1'', 7001))]"
  by (simp add: scenario_defs step_defs)

text \<open>
  C5. The claim has the initialisation fail in push mode with no destination. It returns:
  the socket is bound and registered, and a warning is the only trace.
\<close>

theorem OutNetwork_initialise_push_without_destination:
  "OutNetwork_initialise ''rw'' (out_cfg False [] []) (os0, Network_init None None :: bytes mailbox network)
     = Return () (state_of (OutNetwork_initialise ''rw'' (out_cfg False [] [])
                    (os0, Network_init None None))) \<and>
   logs (fst (state_of (OutNetwork_initialise ''rw'' (out_cfg False [] [])
                    (os0, Network_init None None :: bytes mailbox network))))
     = [(INFO, BindedSocket (''127.0.0.1'', 65000)), (INFO, Host ''sim''),
        (WARNING, NoDestinationHost)] \<and>
   sel (fst (state_of (OutNetwork_initialise ''rw'' (out_cfg False [] [])
                    (os0, Network_init None None :: bytes mailbox network)))) 0 = Some 3 \<and>
   clients (snd (state_of (OutNetwork_initialise ''rw'' (out_cfg False [] [])
                    (os0, Network_init None None :: bytes mailbox network)))) = []"
  by (simp add: scenario_defs step_defs)

text \<open>
  C6 (as stated). The claim has a second \<^verbatim>\<open>close\<close> do nothing. On an initialised channel the
  first call returns and the second raises.
\<close>

theorem close_twice_counterexample:
  "returns (close (in_chan 1024 [] :: os \<times> bytes list in_network)) \<and>
   \<not> returns (close (state_of (close (in_chan 1024 [] :: os \<times> bytes list in_network))))"
  by (simp add: scenario_defs step_defs)

text \<open>
  C6 (amended). On an initialised channel, whose socket is registered with the selector, the
  first \<^verbatim>\<open>close\<close> returns, with the socket unregistered and closed; a second \<^verbatim>\<open>close\<close>
  raises ValueError from the selector and changes nothing.
\<close>

theorem close_twice:
  assumes "sock (snd st) = Some s" and "sel (fst st) s = Some ev"
  shows "\<exists>st1. close st = Return () st1 \<and> sel (fst st1) s = None \<and>
           sock_closed (fst st1) s \<and> close st1 = Raise ValueError st1"
proof -
  let ?st1 = "(logger_info ClosedSocket
                 (sock_close s (logger_info UnregisteredSocket ((fst st)\<lparr>sel := (sel (fst st))(s := None)\<rparr>))),
               snd st)"
  have 1: "close st = Return () ?st1"
    using assms by (simp add: close_def sel_unregister_def Let_def)
  have 2: "sel (fst ?st1) s = None"
    by (simp add: sock_close_def)
  have 3: "sock_closed (fst ?st1) s"
    by (simp add: sock_close_def sock_closed_def)
  have 4: "close ?st1 = Raise ValueError ?st1"
    using assms(1) 2 3 by (simp add: close_def sel_unregister_def)
  show ?thesis
    by (rule exI [of _ ?st1]) (rule conjI [OF 1 conjI [OF 2 conjI [OF 3 4]]])
qed

theorem close_twice_witness:
  "sock (snd (in_chan 1024 [] :: os \<times> bytes list in_network)) = Some 0 \<and>
   sel (fst (in_chan 1024 [] :: os \<times> bytes list in_network)) 0 = Some EVENT_READ \<and>
   (\<exists>st1. close (in_chan 1024 [] :: os \<times> bytes list in_network) = Return () st1 \<and>
      sel (fst st1) 0 = None \<and> sock_closed (fst st1) 0 \<and> close st1 = Raise ValueError st1)"
proof -
  have h1: "sock (snd (in_chan 1024 [] :: os \<times> bytes list in_network)) = Some 0"
    by (simp add: scenario_defs)
  have h2: "sel (fst (in_chan 1024 [] :: os \<times> bytes list in_network)) 0 = Some EVENT_READ"
    by (simp add: scenario_defs)
  from close_twice [OF h1 h2] h1 h2 show ?thesis by blast
qed

end
